theory Spec2Isabelle
  imports Main "HOL-Library.Word"
begin

section \<open>JavaScript strings\<close>

text \<open>
  A JavaScript string is a sequence of UTF-16 code units; \<open>length\<close>, \<open>substring\<close> and
  \<open>trim\<close> all work on code units. The literals of the source are ASCII and are written
  with \<open>js\<close>.
\<close>

type_synonym code_unit = "16 word"
type_synonym jsstring = "code_unit list"

definition js :: "string \<Rightarrow> jsstring" where
  "js s = map of_char s"

text \<open>
  \<open>String.prototype.trim\<close> removes WhiteSpace and LineTerminator code units from both
  ends (ECMA-262: TAB, VT, FF, SP, NBSP, ZWNBSP, the category Zs, and LF, CR, LS, PS).
\<close>

definition isWhiteSpace :: "code_unit \<Rightarrow> bool" where
  "isWhiteSpace c \<longleftrightarrow>
     c = 0x09 \<or> c = 0x0A \<or> c = 0x0B \<or> c = 0x0C \<or> c = 0x0D \<or> c = 0x20 \<or> c = 0xA0 \<or>
     c = 0x1680 \<or> (0x2000 \<le> c \<and> c \<le> 0x200A) \<or> c = 0x2028 \<or> c = 0x2029 \<or>
     c = 0x202F \<or> c = 0x205F \<or> c = 0x3000 \<or> c = 0xFEFF"

definition trimStart :: "jsstring \<Rightarrow> jsstring" where
  "trimStart s = dropWhile isWhiteSpace s"

definition trimEnd :: "jsstring \<Rightarrow> jsstring" where
  "trimEnd s = rev (dropWhile isWhiteSpace (rev s))"

definition trim :: "jsstring \<Rightarrow> jsstring" where
  "trim s = trimEnd (trimStart s)"

text \<open>
  \<open>s.substring(start, end)\<close> for non-negative integer arguments: both indices are clamped
  to the length and swapped when \<open>start > end\<close>.
\<close>

definition substring :: "nat \<Rightarrow> nat \<Rightarrow> jsstring \<Rightarrow> jsstring" where
  "substring start end s =
     (let intStart = min start (length s);
          intEnd = min end (length s);
          from = min intStart intEnd;
          to = max intStart intEnd
      in take (to - from) (drop from s))"

text \<open>\<open>s.slice(start)\<close> for a non-negative integer argument.\<close>

definition slice_from :: "nat \<Rightarrow> jsstring \<Rightarrow> jsstring" where
  "slice_from start s = drop start s"

text \<open>
  \<open>toLowerCase\<close> and \<open>toUpperCase\<close> on the ASCII letters; every other code unit is
  left as it is. (No code unit outside ASCII has a lowercase form that is one of the
  letters of the allowed extensions, so the test of the extension is not affected.)
\<close>

definition isUpper :: "code_unit \<Rightarrow> bool" where
  "isUpper c \<longleftrightarrow> 0x41 \<le> c \<and> c \<le> 0x5A"

definition isLower :: "code_unit \<Rightarrow> bool" where
  "isLower c \<longleftrightarrow> 0x61 \<le> c \<and> c \<le> 0x7A"

definition toLowerCase :: "jsstring \<Rightarrow> jsstring" where
  "toLowerCase s = map (\<lambda>c. if isUpper c then c + 0x20 else c) s"

definition toUpperCase :: "jsstring \<Rightarrow> jsstring" where
  "toUpperCase s = map (\<lambda>c. if isLower c then c - 0x20 else c) s"

text \<open>\<open>words.join(delimiter)\<close>\<close>

fun join_words :: "jsstring \<Rightarrow> jsstring list \<Rightarrow> jsstring" where
  "join_words d [] = []"
| "join_words d [w] = w"
| "join_words d (w # ws) = w @ d @ join_words d ws"

section \<open>The naming formats and the result of one file\<close>

datatype Format = snake | kebab | pascal | camel | capital | lowercase | sentence

datatype ProcessStatus = success | skipped | error

datatype ProcessResult = Success (newPath: jsstring) | Skipped | Error

fun status :: "ProcessResult \<Rightarrow> ProcessStatus" where
  "status (Success p) = success"
| "status Skipped = skipped"
| "status Error = error"

section \<open>The change-case library\<close>

text \<open>
  \<open>convertCase\<close> calls seven functions of the third-party package \<open>change-case\<close>
  (\<open>import * as changeCase from 'change-case'\<close>), which is not part of the repository.
  The functions are a parameter of the model.
\<close>

record changeCase =
  snakeCase :: "jsstring \<Rightarrow> jsstring"
  kebabCase :: "jsstring \<Rightarrow> jsstring"
  pascalCase :: "jsstring \<Rightarrow> jsstring"
  camelCase :: "jsstring \<Rightarrow> jsstring"
  capitalCase :: "jsstring \<Rightarrow> jsstring"
  noCase :: "jsstring \<Rightarrow> jsstring"
  sentenceCase :: "jsstring \<Rightarrow> jsstring"

subsection \<open>A model of the library on ASCII text\<close>

text \<open>
  Modelled from the spec: the package \<open>change-case\<close> is missing from the sources. The
  glossary gives each convention's delimiter and capitalisation: snake_case joins lowercase
  words with underscores, kebab-case with hyphens, PascalCase capitalises each word with no
  delimiter, camelCase capitalises all but the first word, Capital Case capitalises each
  word with a space delimiter, sentence case capitalises only the first word, and the
  lowercase format joins lowercase words with spaces. Words are split as the package does
  it: between a lowercase letter or digit and an uppercase letter, between an uppercase
  letter and an uppercase letter followed by a lowercase letter, and at every run of
  characters that are neither letters nor digits. Letters are the ASCII letters only and
  digits the ASCII digits.
\<close>

definition isDigit :: "code_unit \<Rightarrow> bool" where
  "isDigit c \<longleftrightarrow> 0x30 \<le> c \<and> c \<le> 0x39"

definition isWordChar :: "code_unit \<Rightarrow> bool" where
  "isWordChar c \<longleftrightarrow> isUpper c \<or> isLower c \<or> isDigit c"

text \<open>\<open>replace(/([\p{Ll}\d])(\p{Lu})/gu, "$1\0$2")\<close>\<close>

fun splitLowerUpper :: "jsstring \<Rightarrow> jsstring" where
  "splitLowerUpper (c # d # r) =
     (if (isLower c \<or> isDigit c) \<and> isUpper d then c # 0 # d # splitLowerUpper r
      else c # splitLowerUpper (d # r))"
| "splitLowerUpper s = s"

text \<open>\<open>replace(/(\p{Lu})([\p{Lu}][\p{Ll}])/gu, "$1\0$2")\<close>\<close>

fun splitUpperUpper :: "jsstring \<Rightarrow> jsstring" where
  "splitUpperUpper (c # d # e # r) =
     (if isUpper c \<and> isUpper d \<and> isLower e then c # 0 # d # e # splitUpperUpper r
      else c # splitUpperUpper (d # e # r))"
| "splitUpperUpper s = s"

text \<open>\<open>replace(/[^\p{L}\d]+/giu, "\0")\<close>: every run of other characters becomes one NUL.\<close>

function stripNonWord :: "jsstring \<Rightarrow> jsstring" where
  "stripNonWord [] = []"
| "stripNonWord (c # r) =
     (if isWordChar c then c # stripNonWord r
      else 0 # stripNonWord (dropWhile (\<lambda>x. \<not> isWordChar x) r))"
  by pat_completeness auto
termination
  by (relation "measure length") (auto simp: length_dropWhile_le le_imp_less_Suc)

text \<open>\<open>s.split(/\0/g)\<close>\<close>

fun splitNul :: "jsstring \<Rightarrow> jsstring \<Rightarrow> jsstring list" where
  "splitNul acc [] = [rev acc]"
| "splitNul acc (c # r) = (if c = 0 then rev acc # splitNul [] r else splitNul (c # acc) r)"

definition split_words :: "jsstring \<Rightarrow> jsstring list" where
  "split_words v =
     (let result = stripNonWord (splitUpperUpper (splitLowerUpper (trim v)));
          inner = rev (dropWhile (\<lambda>c. c = 0) (rev (dropWhile (\<lambda>c. c = 0) result)))
      in if inner = [] then [] else splitNul [] inner)"

definition capitalCaseTransform :: "jsstring \<Rightarrow> jsstring" where
  "capitalCaseTransform w = toUpperCase (take 1 w) @ toLowerCase (slice_from 1 w)"

definition pascalCaseTransform :: "jsstring \<Rightarrow> nat \<Rightarrow> jsstring" where
  "pascalCaseTransform w index =
     (let char0 = take 1 w;
          initial = (if index > 0 \<and> list_all isDigit char0 \<and> char0 \<noteq> []
                     then js ''_'' @ char0 else toUpperCase char0)
      in initial @ toLowerCase (slice_from 1 w))"

definition map_index :: "(jsstring \<Rightarrow> nat \<Rightarrow> jsstring) \<Rightarrow> jsstring list \<Rightarrow> jsstring list" where
  "map_index f ws = map (\<lambda>(w, i). f w i) (zip ws [0..<length ws])"

definition lib_noCase :: "jsstring \<Rightarrow> jsstring \<Rightarrow> jsstring" where
  "lib_noCase delimiter input = join_words delimiter (map toLowerCase (split_words input))"

definition lib_pascalCase :: "jsstring \<Rightarrow> jsstring" where
  "lib_pascalCase input = join_words [] (map_index pascalCaseTransform (split_words input))"

definition lib_camelCase :: "jsstring \<Rightarrow> jsstring" where
  "lib_camelCase input =
     join_words [] (map_index (\<lambda>w index. if index = 0 then toLowerCase w
                                          else pascalCaseTransform w index)
                      (split_words input))"

definition lib_capitalCase :: "jsstring \<Rightarrow> jsstring" where
  "lib_capitalCase input = join_words (js '' '') (map capitalCaseTransform (split_words input))"

definition lib_sentenceCase :: "jsstring \<Rightarrow> jsstring" where
  "lib_sentenceCase input =
     join_words (js '' '')
       (map_index (\<lambda>w index. if index = 0 then capitalCaseTransform w else toLowerCase w)
          (split_words input))"

definition changeCaseLib :: changeCase where
  "changeCaseLib =
     \<lparr> snakeCase = lib_noCase (js ''_''),
       kebabCase = lib_noCase (js ''-''),
       pascalCase = lib_pascalCase,
       camelCase = lib_camelCase,
       capitalCase = lib_capitalCase,
       noCase = lib_noCase (js '' ''),
       sentenceCase = lib_sentenceCase \<rparr>"

section \<open>convertCase\<close>

text \<open>
  The \<open>switch\<close> on the format; its \<open>default\<close> branch is unreachable for a value of
  type \<open>Format\<close>. The result is trimmed and cut to its first 200 code units.
\<close>

definition applyCase :: "changeCase \<Rightarrow> jsstring \<Rightarrow> Format \<Rightarrow> jsstring" where
  "applyCase cc name format =
     (case format of
        snake \<Rightarrow> snakeCase cc name
      | kebab \<Rightarrow> kebabCase cc name
      | pascal \<Rightarrow> pascalCase cc name
      | camel \<Rightarrow> camelCase cc name
      | capital \<Rightarrow> capitalCase cc name
      | lowercase \<Rightarrow> noCase cc name
      | sentence \<Rightarrow> sentenceCase cc name)"

definition convertCase :: "changeCase \<Rightarrow> jsstring \<Rightarrow> Format \<Rightarrow> jsstring" where
  "convertCase cc name format = substring 0 200 (trim (applyCase cc name format))"

section \<open>Paths\<close>

text \<open>
  The functions of Node's \<open>path\<close> module that the program calls, in their POSIX form;
  the separator is the slash.
\<close>

definition isSlash :: "code_unit \<Rightarrow> bool" where
  "isSlash c \<longleftrightarrow> c = 0x2F"

text \<open>\<open>path.basename(p)\<close>: the last segment, trailing slashes ignored.\<close>

definition path_basename :: "jsstring \<Rightarrow> jsstring" where
  "path_basename p =
     rev (takeWhile (\<lambda>c. \<not> isSlash c) (dropWhile isSlash (rev p)))"

text \<open>
  \<open>path.extname(p)\<close>: from the last dot of the last segment to its end; empty when the
  segment has no dot, starts with its only dot, or is \<open>..\<close>.
\<close>

definition path_extname :: "jsstring \<Rightarrow> jsstring" where
  "path_extname p =
     (let base = path_basename p;
          suf = rev (takeWhile (\<lambda>c. c \<noteq> 0x2E) (rev base))
      in if length suf = length base then []
         else if length suf + 1 = length base then []
         else if base = js ''..'' then []
         else 0x2E # suf)"

text \<open>
  \<open>path.dirname(p)\<close>: the path up to the slash before the last segment. The scan runs
  from the end down to index 1, so the first character is never taken for that slash.
\<close>

definition path_dirname :: "jsstring \<Rightarrow> jsstring" where
  "path_dirname p =
     (if p = [] then js ''.''
      else
        let hasRoot = isSlash (hd p);
            afterBase = dropWhile (\<lambda>c. \<not> isSlash c) (dropWhile isSlash (rev (tl p)))
        in if afterBase = [] then (if hasRoot then js ''/'' else js ''.'')
           else if hasRoot \<and> length afterBase = 1 then js ''//''
           else take (length afterBase) p)"

fun split_on :: "code_unit \<Rightarrow> jsstring \<Rightarrow> jsstring \<Rightarrow> jsstring list" where
  "split_on sep acc [] = [rev acc]"
| "split_on sep acc (c # r) =
     (if c = sep then rev acc # split_on sep [] r else split_on sep (c # acc) r)"

text \<open>
  \<open>normalizeString\<close>: empty and \<open>.\<close> segments are dropped, a \<open>..\<close> segment removes the
  segment before it, or is kept when there is none and the path is relative.
\<close>

fun normalizeSegments :: "bool \<Rightarrow> jsstring list \<Rightarrow> jsstring list \<Rightarrow> jsstring list" where
  "normalizeSegments allowAboveRoot res [] = res"
| "normalizeSegments allowAboveRoot res (seg # segs) =
     (if seg = [] \<or> seg = js ''.'' then normalizeSegments allowAboveRoot res segs
      else if seg = js ''..'' then
        (if res \<noteq> [] \<and> last res \<noteq> js ''..''
         then normalizeSegments allowAboveRoot (butlast res) segs
         else if allowAboveRoot
         then normalizeSegments allowAboveRoot (res @ [js ''..'']) segs
         else normalizeSegments allowAboveRoot res segs)
      else normalizeSegments allowAboveRoot (res @ [seg]) segs)"

definition path_normalize :: "jsstring \<Rightarrow> jsstring" where
  "path_normalize p =
     (if p = [] then js ''.''
      else
        let isAbsolute = isSlash (hd p);
            trailingSeparator = isSlash (last p);
            q = join_words (js ''/'')
                  (normalizeSegments (\<not> isAbsolute) [] (split_on 0x2F [] p))
        in if q = [] then
             (if isAbsolute then js ''/'' else if trailingSeparator then js ''./'' else js ''.'')
           else
             (let q' = (if trailingSeparator then q @ js ''/'' else q)
              in if isAbsolute then js ''/'' @ q' else q'))"

text \<open>\<open>path.join(a, b)\<close>: the non-empty arguments joined by a slash, then normalised.\<close>

definition path_join :: "jsstring \<Rightarrow> jsstring \<Rightarrow> jsstring" where
  "path_join a b =
     (let parts = filter (\<lambda>s. s \<noteq> []) [a, b]
      in if parts = [] then js ''.'' else path_normalize (join_words (js ''/'') parts))"

section \<open>The file system\<close>

text \<open>
  The file system holds, for each file, what lies there: a regular file with its bytes
  and whether the process may read it, or a directory. \<open>resolve\<close> gives the file that a
  path names, so that two paths with the same value name one file (as \<open>a.png\<close> and
  \<open>./a.png\<close> do). \<open>refuses\<close> gives the renames that the operating system rejects and
  the error of each (no permission, a read-only or full disk, another device, a name
  that is too long). \<open>renames\<close> records every call of \<open>fs.rename\<close>, failed calls
  included.
\<close>

datatype node = File (contents: "8 word list") (readable: bool) | Dir

datatype errno =
    ENOENT | EACCES | EISDIR | ENOTDIR | ENOTEMPTY
  | EPERM | EROFS | EXDEV | ENOSPC | ENAMETOOLONG | EIO

record fs_state =
  nodes :: "jsstring \<rightharpoonup> node"
  resolve :: "jsstring \<Rightarrow> jsstring"
  refuses :: "jsstring \<Rightarrow> jsstring \<Rightarrow> errno option"
  renames :: "(jsstring \<times> jsstring) list"

definition fs_readFile :: "fs_state \<Rightarrow> jsstring \<Rightarrow> errno + 8 word list" where
  "fs_readFile fs p =
     (case nodes fs (resolve fs p) of
        None \<Rightarrow> Inl ENOENT
      | Some Dir \<Rightarrow> Inl EISDIR
      | Some (File bytes r) \<Rightarrow> if r then Inr bytes else Inl EACCES)"

text \<open>\<open>fs.stat(p)\<close>; the value returned is \<open>stats.isFile()\<close>.\<close>

definition fs_stat :: "fs_state \<Rightarrow> jsstring \<Rightarrow> errno + bool" where
  "fs_stat fs p =
     (case nodes fs (resolve fs p) of
        None \<Rightarrow> Inl ENOENT
      | Some Dir \<Rightarrow> Inr False
      | Some (File bytes r) \<Rightarrow> Inr True)"

text \<open>\<open>fs.access(p, fs.constants.R_OK)\<close>\<close>

definition fs_access :: "fs_state \<Rightarrow> jsstring \<Rightarrow> errno + unit" where
  "fs_access fs p =
     (case nodes fs (resolve fs p) of
        None \<Rightarrow> Inl ENOENT
      | Some Dir \<Rightarrow> Inr ()
      | Some (File bytes r) \<Rightarrow> if r then Inr () else Inl EACCES)"

text \<open>
  \<open>fs.rename(oldPath, newPath)\<close>: fails with the error of the operating system when it
  refuses the call, when the source is missing, and when file and directory would
  replace one another; otherwise the node moves to the file that the new path names and
  replaces a file that was there. Renaming a file to itself changes nothing.
\<close>

definition rename_nodes :: "fs_state \<Rightarrow> jsstring \<Rightarrow> jsstring \<Rightarrow> errno + (jsstring \<rightharpoonup> node)" where
  "rename_nodes fs src dst =
     (case refuses fs src dst of
        Some e \<Rightarrow> Inl e
      | None \<Rightarrow>
          (case nodes fs (resolve fs src) of
             None \<Rightarrow> Inl ENOENT
           | Some n \<Rightarrow>
               if resolve fs src = resolve fs dst then Inr (nodes fs)
               else
                 (case (n, nodes fs (resolve fs dst)) of
                    (File bytes r, Some Dir) \<Rightarrow> Inl EISDIR
                  | (Dir, Some (File bytes r)) \<Rightarrow> Inl ENOTDIR
                  | (Dir, Some Dir) \<Rightarrow> Inl ENOTEMPTY
                  | _ \<Rightarrow> Inr ((nodes fs)(resolve fs src := None, resolve fs dst \<mapsto> n)))))"

definition fs_rename :: "fs_state \<Rightarrow> jsstring \<Rightarrow> jsstring \<Rightarrow> (errno + unit) \<times> fs_state" where
  "fs_rename fs src dst =
     (let fs1 = fs\<lparr>renames := renames fs @ [(src, dst)]\<rparr>
      in case rename_nodes fs src dst of
           Inl e \<Rightarrow> (Inl e, fs1)
         | Inr m \<Rightarrow> (Inr (), fs1\<lparr>nodes := m\<rparr>))"

section \<open>The remote description service\<close>

text \<open>
  What \<open>JSON.parse\<close> can return. The cast to \<open>ApiSuccessResponse\<close> is not checked when
  the program runs, so the body may be any JSON value. An object is the list of its
  properties, each key once.
\<close>

datatype json =
    JNull
  | JBool bool
  | JNumber int
  | JString jsstring
  | JArray "json list"
  | JObject "(jsstring \<times> json) list"

text \<open>
  The outcome of the one request: \<open>fetch\<close> rejects (the 10 second timeout, a network
  failure), or a response arrives with its \<open>ok\<close> flag and the result of
  \<open>response.json()\<close>, \<open>None\<close> when the body is not JSON.
\<close>

datatype fetch_result = Rejected | Response (ok: bool) (body: "json option")

datatype exn =
    FsError errno
  | FetchError
  | HttpError
  | JsonError
  | TypeError
  | NoContentError

text \<open>
  Property access. \<open>None\<close> is \<open>undefined\<close>. Only an object has the properties
  \<open>choices\<close>, \<open>message\<close> and \<open>content\<close>; index 0 also exists on a non-empty array and
  on a non-empty string.
\<close>

fun get_prop :: "json \<Rightarrow> jsstring \<Rightarrow> json option" where
  "get_prop (JObject kvs) k = map_of kvs k"
| "get_prop v k = None"

fun get_index0 :: "json \<Rightarrow> json option" where
  "get_index0 (JArray xs) = (case xs of [] \<Rightarrow> None | x # r \<Rightarrow> Some x)"
| "get_index0 (JString s) = (case s of [] \<Rightarrow> None | c # r \<Rightarrow> Some (JString [c]))"
| "get_index0 (JObject kvs) = map_of kvs (js ''0'')"
| "get_index0 v = None"

text \<open>\<open>v?.k\<close>: \<open>undefined\<close> when \<open>v\<close> is \<open>undefined\<close> or \<open>null\<close>.\<close>

fun opt_prop :: "json option \<Rightarrow> jsstring \<Rightarrow> json option" where
  "opt_prop None k = None"
| "opt_prop (Some JNull) k = None"
| "opt_prop (Some v) k = get_prop v k"

fun opt_index0 :: "json option \<Rightarrow> json option" where
  "opt_index0 None = None"
| "opt_index0 (Some JNull) = None"
| "opt_index0 (Some v) = get_index0 v"

text \<open>
  \<open>c?.trim()\<close>: \<open>undefined\<close> for \<open>undefined\<close> and \<open>null\<close>, the trimmed string for a
  string, and a TypeError for any other value, which has no callable \<open>trim\<close>.
\<close>

fun opt_trim :: "json option \<Rightarrow> exn + jsstring option" where
  "opt_trim None = Inr None"
| "opt_trim (Some JNull) = Inr None"
| "opt_trim (Some (JString s)) = Inr (Some (trim s))"
| "opt_trim (Some v) = Inl TypeError"

text \<open>
  \<open>data.choices?.[0]?.message?.content?.trim()\<close>; reading \<open>choices\<close> of \<open>null\<close> is a
  TypeError.
\<close>

definition content_of :: "json \<Rightarrow> exn + jsstring option" where
  "content_of data =
     (if data = JNull then Inl TypeError
      else opt_trim
             (opt_prop (opt_prop (opt_index0 (get_prop data (js ''choices'')))
                          (js ''message''))
                (js ''content'')))"

text \<open>
  \<open>getNewFilename\<close>. The argument \<open>remote\<close> is the service: the outcome of the request
  for a given data URL.
\<close>

definition getNewFilename :: "(jsstring \<Rightarrow> fetch_result) \<Rightarrow> jsstring \<Rightarrow> exn + jsstring" where
  "getNewFilename remote imageBase64 =
     (case remote imageBase64 of
        Rejected \<Rightarrow> Inl FetchError
      | Response response_ok response_json \<Rightarrow>
          if \<not> response_ok then Inl HttpError
          else
            (case response_json of
               None \<Rightarrow> Inl JsonError
             | Some data \<Rightarrow>
                 (case content_of data of
                    Inl e \<Rightarrow> Inl e
                  | Inr None \<Rightarrow> Inl NoContentError
                  | Inr (Some content) \<Rightarrow>
                      if content = [] then Inl NoContentError else Inr content)))"

section \<open>imageToBase64\<close>

text \<open>\<open>buffer.toString('base64')\<close>\<close>

definition base64_alphabet :: jsstring where
  "base64_alphabet = js ''ABCDEFGHIJKLMNOPQRSTUVWXYZabcdefghijklmnopqrstuvwxyz0123456789+/''"

definition base64_digit :: "nat \<Rightarrow> code_unit" where
  "base64_digit i = base64_alphabet ! (i mod 64)"

fun base64 :: "8 word list \<Rightarrow> jsstring" where
  "base64 [] = []"
| "base64 [a] =
     [base64_digit (unat a div 4), base64_digit ((unat a mod 4) * 16), 0x3D, 0x3D]"
| "base64 [a, b] =
     [base64_digit (unat a div 4), base64_digit ((unat a mod 4) * 16 + unat b div 16),
      base64_digit ((unat b mod 16) * 4), 0x3D]"
| "base64 (a # b # c # r) =
     [base64_digit (unat a div 4), base64_digit ((unat a mod 4) * 16 + unat b div 16),
      base64_digit ((unat b mod 16) * 4 + unat c div 64), base64_digit (unat c mod 64)]
     @ base64 r"

definition imageToBase64 :: "fs_state \<Rightarrow> jsstring \<Rightarrow> exn + jsstring" where
  "imageToBase64 fs imagePath =
     (case fs_readFile fs imagePath of
        Inl e \<Rightarrow> Inl (FsError e)
      | Inr imageBuffer \<Rightarrow>
          let imageBase64 = base64 imageBuffer;
              ext = path_extname imagePath;
              mimeExtension = slice_from 1 (toLowerCase ext);
              mimeExtension' = (if mimeExtension = js ''jpg'' then js ''jpeg'' else mimeExtension);
              mimeType = js ''image/'' @ mimeExtension'
          in Inr (js ''data:'' @ mimeType @ js '';base64,'' @ imageBase64))"

section \<open>processImage\<close>

text \<open>
  What the program is run with: the casing library, and for each image path the service
  that answers the request made for it.
\<close>

record env =
  lib :: changeCase
  service :: "jsstring \<Rightarrow> jsstring \<Rightarrow> fetch_result"

definition doesFileExist :: "fs_state \<Rightarrow> jsstring \<Rightarrow> bool" where
  "doesFileExist fs filePath =
     (case fs_stat fs filePath of Inl e \<Rightarrow> False | Inr isFile \<Rightarrow> isFile)"

definition isFileReadable :: "fs_state \<Rightarrow> jsstring \<Rightarrow> bool" where
  "isFileReadable fs filePath =
     (if \<not> doesFileExist fs filePath then False
      else case fs_access fs filePath of Inl e \<Rightarrow> False | Inr u \<Rightarrow> True)"

text \<open>
  The part of \<open>processImage\<close> between the read of the file and the mutex: it throws,
  returns \<open>skipped\<close>, or goes on to the rename with the new path.
\<close>

datatype transformed = Throw exn | Return ProcessResult | RenameTo jsstring

definition describeAndTransform :: "env \<Rightarrow> Format \<Rightarrow> jsstring \<Rightarrow> jsstring \<Rightarrow> transformed" where
  "describeAndTransform e format imagePath imageBase64 =
     (case getNewFilename (service e imagePath) imageBase64 of
        Inl x \<Rightarrow> Throw x
      | Inr aiName \<Rightarrow>
          if aiName = [] then Return Skipped
          else
            let sanitizedName = convertCase (lib e) aiName format
            in if sanitizedName = [] then Return Skipped
               else
                 let fileExt = path_extname imagePath;
                     newFilePath = path_join (path_dirname imagePath) (sanitizedName @ fileExt)
                 in if imagePath = newFilePath then Return Skipped
                    else RenameTo newFilePath)"

text \<open>The function run under \<open>renameMutex.runExclusive\<close>.\<close>

definition checkThenRename :: "fs_state \<Rightarrow> jsstring \<Rightarrow> jsstring \<Rightarrow> (exn + ProcessResult) \<times> fs_state" where
  "checkThenRename fs imagePath newFilePath =
     (if doesFileExist fs newFilePath then (Inr Skipped, fs)
      else
        (case fs_rename fs imagePath newFilePath of
           (Inl e, fs') \<Rightarrow> (Inl (FsError e), fs')
         | (Inr u, fs') \<Rightarrow> (Inr (Success newFilePath), fs')))"

text \<open>The \<open>try\<close> block of \<open>processImage\<close>, for one pipeline that runs alone.\<close>

definition processImage_try :: "env \<Rightarrow> Format \<Rightarrow> jsstring \<Rightarrow> fs_state \<Rightarrow> (exn + ProcessResult) \<times> fs_state" where
  "processImage_try e format imagePath fs =
     (case imageToBase64 fs imagePath of
        Inl x \<Rightarrow> (Inl x, fs)
      | Inr imageBase64 \<Rightarrow>
          (case describeAndTransform e format imagePath imageBase64 of
             Throw x \<Rightarrow> (Inl x, fs)
           | Return r \<Rightarrow> (Inr r, fs)
           | RenameTo newFilePath \<Rightarrow> checkThenRename fs imagePath newFilePath))"

text \<open>\<open>processImage\<close>: the \<open>catch\<close> turns every exception into the status \<open>error\<close>.\<close>

definition processImage :: "env \<Rightarrow> Format \<Rightarrow> jsstring \<Rightarrow> fs_state \<Rightarrow> ProcessResult \<times> fs_state" where
  "processImage e format imagePath fs =
     (case processImage_try e format imagePath fs of
        (Inl x, fs') \<Rightarrow> (Error, fs')
      | (Inr r, fs') \<Rightarrow> (r, fs'))"

section \<open>processImage over arbitrary steps\<close>

text \<open>
  \<open>processImage\<close> once more, with each call that it makes as a parameter, so that a
  call may raise any exception, of any type, at any point, and change the state of the
  world as it likes.
\<close>

text \<open>
  An action, from a state of the world, gives a value or raises an exception, and leaves
  a state. Each call of \<open>processImage\<close> is such an action: an awaited promise that is
  fulfilled or rejected, or a synchronous call that returns or throws.
\<close>

type_synonym ('x, 's, 'a) action = "'s \<Rightarrow> ('x + 'a) \<times> 's"

text \<open>
  The calls of \<open>processImage\<close> and of \<open>doesFileExist\<close>:
  \<open>imageToBase64(imagePath)\<close>; \<open>getNewFilename(imageBase64)\<close>, whose answer may depend on
  the image asked about; \<open>convertCase(aiName, format)\<close>; the computation of
  \<open>newFilePath\<close> with \<open>path.extname\<close>, \<open>path.dirname\<close> and \<open>path.join\<close>; the wait for
  \<open>renameMutex\<close> and its release; \<open>fs.stat(filePath)\<close> with \<open>stats.isFile()\<close>; and
  \<open>fs.rename(imagePath, newFilePath)\<close>.
\<close>

record ('x, 's) steps =
  imageToBase64_step :: "jsstring \<Rightarrow> ('x, 's, jsstring) action"
  getNewFilename_step :: "jsstring \<Rightarrow> jsstring \<Rightarrow> ('x, 's, jsstring) action"
  convertCase_step :: "jsstring \<Rightarrow> Format \<Rightarrow> ('x, 's, jsstring) action"
  newFilePath_step :: "jsstring \<Rightarrow> jsstring \<Rightarrow> ('x, 's, jsstring) action"
  acquire_step :: "('x, 's, unit) action"
  release_step :: "'s \<Rightarrow> 's"
  stat_step :: "jsstring \<Rightarrow> ('x, 's, bool) action"
  rename_step :: "jsstring \<Rightarrow> jsstring \<Rightarrow> ('x, 's, unit) action"

text \<open>One call after another: an exception of the first ends the sequence.\<close>

definition andThen :: "('x, 's, 'a) action \<Rightarrow> ('a \<Rightarrow> ('x, 's, 'b) action) \<Rightarrow> ('x, 's, 'b) action" where
  "andThen m f \<sigma> = (case m \<sigma> of (Inl x, \<sigma>') \<Rightarrow> (Inl x, \<sigma>') | (Inr a, \<sigma>') \<Rightarrow> f a \<sigma>')"

definition returns :: "'a \<Rightarrow> ('x, 's, 'a) action" where
  "returns a \<sigma> = (Inr a, \<sigma>)"

text \<open>\<open>doesFileExist\<close>: its own \<open>catch\<close> reads every exception of \<open>fs.stat\<close> as "no file".\<close>

definition doesFileExistOn :: "('x, 's) steps \<Rightarrow> jsstring \<Rightarrow> ('x, 's, bool) action" where
  "doesFileExistOn s filePath \<sigma> =
     (case stat_step s filePath \<sigma> of
        (Inl x, \<sigma>') \<Rightarrow> (Inr False, \<sigma>')
      | (Inr isFile, \<sigma>') \<Rightarrow> (Inr isFile, \<sigma>'))"

text \<open>
  \<open>renameMutex.runExclusive(callback)\<close> of the package \<open>async-mutex\<close>: it waits for the
  mutex, runs the callback and releases the mutex in a \<open>finally\<close>, whether the callback
  returned or threw.
\<close>

definition runExclusive :: "('x, 's) steps \<Rightarrow> ('x, 's, 'a) action \<Rightarrow> ('x, 's, 'a) action" where
  "runExclusive s callback \<sigma> =
     (case acquire_step s \<sigma> of
        (Inl x, \<sigma>') \<Rightarrow> (Inl x, \<sigma>')
      | (Inr u, \<sigma>') \<Rightarrow> (case callback \<sigma>' of (r, \<sigma>'') \<Rightarrow> (r, release_step s \<sigma>'')))"

text \<open>The \<open>try\<close> block of \<open>processImage\<close>.\<close>

definition tryBlock :: "('x, 's) steps \<Rightarrow> Format \<Rightarrow> jsstring \<Rightarrow> ('x, 's, ProcessResult) action" where
  "tryBlock s format imagePath =
     andThen (imageToBase64_step s imagePath) (\<lambda>imageBase64.
     andThen (getNewFilename_step s imagePath imageBase64) (\<lambda>aiName.
       if aiName = [] then returns Skipped
       else
         andThen (convertCase_step s aiName format) (\<lambda>sanitizedName.
           if sanitizedName = [] then returns Skipped
           else
             andThen (newFilePath_step s imagePath sanitizedName) (\<lambda>newFilePath.
               if imagePath = newFilePath then returns Skipped
               else
                 runExclusive s
                   (andThen (doesFileExistOn s newFilePath) (\<lambda>exists.
                      if exists then returns Skipped
                      else
                        andThen (rename_step s imagePath newFilePath) (\<lambda>u.
                          returns (Success newFilePath))))))))"

text \<open>
  \<open>processImage\<close>: the \<open>catch\<close> binds no exception and returns the status \<open>error\<close>. The
  result is written as a value or an exception, like that of every action.
\<close>

definition processImageOn :: "('x, 's) steps \<Rightarrow> Format \<Rightarrow> jsstring \<Rightarrow> ('x, 's, ProcessResult) action" where
  "processImageOn s format imagePath \<sigma> =
     (case tryBlock s format imagePath \<sigma> of
        (Inl x, \<sigma>') \<Rightarrow> (Inr Error, \<sigma>')
      | (Inr r, \<sigma>') \<Rightarrow> (Inr r, \<sigma>'))"

text \<open>The calls as they are modelled above, on the file system and the service of \<open>e\<close>.\<close>

definition modelSteps :: "env \<Rightarrow> (exn, fs_state) steps" where
  "modelSteps e =
     \<lparr> imageToBase64_step = (\<lambda>imagePath fs. (imageToBase64 fs imagePath, fs)),
       getNewFilename_step = (\<lambda>imagePath imageBase64 fs.
         (getNewFilename (service e imagePath) imageBase64, fs)),
       convertCase_step = (\<lambda>name format. returns (convertCase (lib e) name format)),
       newFilePath_step = (\<lambda>imagePath sanitizedName.
         returns (path_join (path_dirname imagePath) (sanitizedName @ path_extname imagePath))),
       acquire_step = returns (),
       release_step = (\<lambda>fs. fs),
       stat_step = (\<lambda>filePath fs.
         (case fs_stat fs filePath of Inl err \<Rightarrow> Inl (FsError err) | Inr isFile \<Rightarrow> Inr isFile, fs)),
       rename_step = (\<lambda>src dst fs.
         case fs_rename fs src dst of
           (Inl err, fs') \<Rightarrow> (Inl (FsError err), fs')
         | (Inr u, fs') \<Rightarrow> (Inr (), fs')) \<rparr>"

section \<open>filterValidImagePaths\<close>

definition ALLOWED_EXTENSIONS :: "jsstring list" where
  "ALLOWED_EXTENSIONS = [js ''.png'', js ''.jpg'', js ''.jpeg'', js ''.webp'']"

text \<open>A \<open>Set<string>\<close> keeps each element once, in the order of insertion.\<close>

definition set_add :: "jsstring list \<Rightarrow> jsstring \<Rightarrow> jsstring list" where
  "set_add s x = (if x \<in> set s then s else s @ [x])"

fun filterLoop :: "fs_state \<Rightarrow> jsstring list \<Rightarrow> jsstring list \<Rightarrow> jsstring list" where
  "filterLoop fs validImagePaths [] = validImagePaths"
| "filterLoop fs validImagePaths (pth # rest) =
     (let existsAndReadable = isFileReadable fs pth;
          ext = toLowerCase (path_extname pth)
      in if existsAndReadable \<and> ext \<in> set ALLOWED_EXTENSIONS
         then filterLoop fs (set_add validImagePaths pth) rest
         else filterLoop fs validImagePaths rest)"

definition filterValidImagePaths :: "fs_state \<Rightarrow> jsstring list \<Rightarrow> jsstring list" where
  "filterValidImagePaths fs imagePaths = filterLoop fs [] imagePaths"

section \<open>The scheduler\<close>

text \<open>
  \<open>main\<close> starts one task per valid path through \<open>pLimit(concurrencyLimit)\<close> and waits
  for all of them. The tasks run on one thread and give way to one another at every
  \<open>await\<close>. A task is therefore in one of these states: queued by the limiter; started,
  with the read of the file in flight; holding the data URL, with the request in flight;
  holding the new path and waiting for the mutex; inside the mutex before the \<open>stat\<close>;
  inside the mutex before the rename; finished with its result.
\<close>

datatype pstate =
    Pending
  | Encoding
  | Describing jsstring
  | Waiting jsstring
  | Checking jsstring
  | Renaming jsstring
  | Done ProcessResult

text \<open>
  The state of a run: the file system, the mutex, the tasks in the order of the valid
  paths, and the variables \<open>results\<close> and \<open>done\<close> of \<open>main\<close>. A message of the task
  log holds the file name, the result and the count shown after it.
\<close>

record config =
  fsys :: fs_state
  locked :: bool
  tasks :: "(jsstring \<times> pstate) list"
  results :: "ProcessStatus \<Rightarrow> nat"
  done_count :: nat
  messages :: "(jsstring \<times> ProcessResult \<times> nat) list"

fun isActive :: "pstate \<Rightarrow> bool" where
  "isActive Pending = False"
| "isActive (Done r) = False"
| "isActive st = True"

fun isDone :: "pstate \<Rightarrow> bool" where
  "isDone (Done r) = True"
| "isDone st = False"

definition activeCount :: "config \<Rightarrow> nat" where
  "activeCount c = length (filter (\<lambda>t. isActive (snd t)) (tasks c))"

text \<open>
  One task moves to its next \<open>await\<close>. A queued task starts only when the limiter has a
  free slot, and a task enters the mutex only when it is free; otherwise the task stays
  where it is. The mutex is released when the function run under it returns or throws.
\<close>

fun advance :: "env \<Rightarrow> Format \<Rightarrow> bool \<Rightarrow> jsstring \<Rightarrow> pstate \<Rightarrow> fs_state \<Rightarrow> bool
                 \<Rightarrow> pstate \<times> fs_state \<times> bool" where
  "advance e format slotFree imagePath Pending fs l =
     (if slotFree then (Encoding, fs, l) else (Pending, fs, l))"
| "advance e format slotFree imagePath Encoding fs l =
     (case imageToBase64 fs imagePath of
        Inl x \<Rightarrow> (Done Error, fs, l)
      | Inr imageBase64 \<Rightarrow> (Describing imageBase64, fs, l))"
| "advance e format slotFree imagePath (Describing imageBase64) fs l =
     (case describeAndTransform e format imagePath imageBase64 of
        Throw x \<Rightarrow> (Done Error, fs, l)
      | Return r \<Rightarrow> (Done r, fs, l)
      | RenameTo newFilePath \<Rightarrow> (Waiting newFilePath, fs, l))"
| "advance e format slotFree imagePath (Waiting newFilePath) fs l =
     (if l then (Waiting newFilePath, fs, l) else (Checking newFilePath, fs, True))"
| "advance e format slotFree imagePath (Checking newFilePath) fs l =
     (if doesFileExist fs newFilePath then (Done Skipped, fs, False)
      else (Renaming newFilePath, fs, l))"
| "advance e format slotFree imagePath (Renaming newFilePath) fs l =
     (case fs_rename fs imagePath newFilePath of
        (Inl x, fs') \<Rightarrow> (Done Error, fs', False)
      | (Inr u, fs') \<Rightarrow> (Done (Success newFilePath), fs', False))"
| "advance e format slotFree imagePath (Done r) fs l = (Done r, fs, l)"

text \<open>
  The task that finishes runs the rest of its callback: \<open>results[result.status]++\<close>,
  \<open>done++\<close> and the message.
\<close>

definition finish :: "jsstring \<Rightarrow> ProcessResult \<Rightarrow> config \<Rightarrow> config" where
  "finish imagePath r c =
     c\<lparr>results := (results c)(status r := results c (status r) + 1),
       done_count := done_count c + 1,
       messages := messages c @ [(path_basename imagePath, r, done_count c + 1)]\<rparr>"

definition step :: "env \<Rightarrow> Format \<Rightarrow> nat \<Rightarrow> config \<Rightarrow> nat \<Rightarrow> config" where
  "step e format limit c i =
     (if i < length (tasks c) then
        (case tasks c ! i of
           (imagePath, st) \<Rightarrow>
             (case advance e format (activeCount c < limit) imagePath st (fsys c) (locked c) of
                (st', fs', l') \<Rightarrow>
                  (let c' = c\<lparr>fsys := fs', locked := l',
                               tasks := (tasks c)[i := (imagePath, st')]\<rparr>
                   in case st' of
                        Done r \<Rightarrow> if isDone st then c' else finish imagePath r c'
                      | _ \<Rightarrow> c')))
      else c)"

text \<open>A run follows a schedule: the list of the tasks that move, in order.\<close>

definition run :: "env \<Rightarrow> Format \<Rightarrow> nat \<Rightarrow> nat list \<Rightarrow> config \<Rightarrow> config" where
  "run e format limit schedule c = foldl (step e format limit) c schedule"

text \<open>One move of a task for which the limiter has a free slot.\<close>

definition alone :: "env \<Rightarrow> Format \<Rightarrow> jsstring \<Rightarrow> pstate \<times> fs_state \<times> bool
                       \<Rightarrow> pstate \<times> fs_state \<times> bool" where
  "alone e format p x = (case x of (st, F, l) \<Rightarrow> advance e format True p st F l)"

definition start :: "fs_state \<Rightarrow> jsstring list \<Rightarrow> config" where
  "start fs validImagePaths =
     \<lparr>fsys = fs, locked = False, tasks = map (\<lambda>p. (p, Pending)) validImagePaths,
      results = (\<lambda>s. 0), done_count = 0, messages = []\<rparr>"

definition allDone :: "config \<Rightarrow> bool" where
  "allDone c = list_all (\<lambda>t. isDone (snd t)) (tasks c)"

text \<open>The number of finished tasks whose result has the status \<open>s\<close>.\<close>

definition countStatus :: "ProcessStatus \<Rightarrow> (jsstring \<times> pstate) list \<Rightarrow> nat" where
  "countStatus s ts =
     length (filter (\<lambda>t. case snd t of Done r \<Rightarrow> status r = s | _ \<Rightarrow> False) ts)"

text \<open>
  \<open>main\<close>, from the arguments to the summary. The API key, the arguments and the answers
  to the two prompts (\<open>None\<close> when the user cancels) are given; the process exits with a
  code, is still running after the schedule, or has completed the run. The prompt accepts
  a limit of at least one only; \<open>pLimit\<close> throws for any other, and the \<open>catch\<close> on
  \<open>main\<close> exits with code 1.
\<close>

datatype main_state = Exit nat | Running config | Completed config

definition main :: "env \<Rightarrow> bool \<Rightarrow> jsstring list \<Rightarrow> (Format \<times> nat) option \<Rightarrow> nat list \<Rightarrow> fs_state
                     \<Rightarrow> main_state" where
  "main e hasApiKey imagePaths userSelections schedule fs =
     (if \<not> hasApiKey then Exit 1
      else if imagePaths = [] then Exit 0
      else
        let validImagePaths = filterValidImagePaths fs imagePaths
        in if validImagePaths = [] then Exit 0
           else
             (case userSelections of
                None \<Rightarrow> Exit 0
              | Some (filenameFormat, concurrencyLimit) \<Rightarrow>
                  if concurrencyLimit < 1 then Exit 1
                  else
                    let c = run e filenameFormat concurrencyLimit schedule
                              (start fs validImagePaths)
                    in if allDone c then Completed c else Running c))"

section \<open>Outcomes of the description request\<close>

text \<open>
  A body has usable text when \<open>choices[0].message.content\<close> is a string that is not
  empty after trimming. The request fails when it is rejected (the timeout), when the
  response is not a 2xx response, when the body is not JSON, or when the body has no
  usable text.
\<close>

definition usableText :: "json \<Rightarrow> bool" where
  "usableText data =
     (case content_of data of Inr (Some content) \<Rightarrow> content \<noteq> [] | _ \<Rightarrow> False)"

definition requestFails :: "fetch_result \<Rightarrow> bool" where
  "requestFails r =
     (case r of
        Rejected \<Rightarrow> True
      | Response response_ok response_json \<Rightarrow>
          (if response_ok
           then (case response_json of None \<Rightarrow> True | Some data \<Rightarrow> \<not> usableText data)
           else True))"

section \<open>Invariants of a run\<close>

text \<open>
  The counters agree with the tasks: each counter is the number of finished tasks with
  that status, \<open>done\<close> is the number of finished tasks, and there is one message for each.
\<close>

definition counted :: "config \<Rightarrow> bool" where
  "counted c \<longleftrightarrow>
     (\<forall>s. results c s = countStatus s (tasks c)) \<and>
     done_count c = length (filter (\<lambda>t. isDone (snd t)) (tasks c)) \<and>
     length (messages c) = done_count c"










section \<open>Example inputs\<close>

text \<open>A response whose first choice has the given text as its content.\<close>

definition answer :: "string \<Rightarrow> fetch_result" where
  "answer s =
     Response True
       (Some (JObject [(js ''choices'',
          JArray [JObject [(js ''message'', JObject [(js ''content'', JString (js s))])]])]))"

text \<open>The model of the casing library, and a service that gives every request the same outcome.\<close>

definition envWith :: "fetch_result \<Rightarrow> env" where
  "envWith r = \<lparr>lib = changeCaseLib, service = (\<lambda>imagePath url. r)\<rparr>"

text \<open>
  A file system with the given nodes in one directory, before any rename: a path names
  the file of its normal form, and no rename is refused.
\<close>

definition files :: "(string \<times> node) list \<Rightarrow> fs_state" where
  "files kvs =
     \<lparr>nodes = map_of (map (\<lambda>kv. (js (fst kv), snd kv)) kvs),
      resolve = path_normalize,
      refuses = (\<lambda>src dst. None),
      renames = []\<rparr>"

text \<open>
  Arguments of a run and the files they meet: two images, a GIF, a missing file, a
  directory with an image extension, an argument given twice and an image that the
  process may not read.
\<close>

definition exampleFiles :: fs_state where
  "exampleFiles =
     files [(''a.png'', File [1] True), (''x.gif'', File [2] True), (''d.png'', Dir),
            (''B.JPG'', File [3] True), (''secret.png'', File [4] False)]"

definition exampleArgs :: "jsstring list" where
  "exampleArgs =
     [js ''a.png'', js ''x.gif'', js ''gone.png'', js ''d.png'', js ''a.png'', js ''B.JPG'',
      js ''secret.png'']"

text \<open>The two tasks move in turn, eight times each.\<close>

definition exampleSchedule :: "nat list" where
  "exampleSchedule = concat (replicate 8 [0, 1])"







text \<open>
  A casing library that leaves white space around the result of the model: a space, a
  tab, line terminators and other white space of ECMAScript.
\<close>

definition paddedLib :: changeCase where
  "paddedLib =
     \<lparr> snakeCase = (\<lambda>s. js '' '' @ snakeCase changeCaseLib s @ [0x09, 0x0A]),
       kebabCase = (\<lambda>s. [0xA0] @ kebabCase changeCaseLib s),
       pascalCase = (\<lambda>s. pascalCase changeCaseLib s @ [0x2028, 0x3000]),
       camelCase = (\<lambda>s. [0xFEFF] @ camelCase changeCaseLib s @ [0x0D]),
       capitalCase = (\<lambda>s. [0x0B, 0x0C] @ capitalCase changeCaseLib s @ [0x2029]),
       noCase = (\<lambda>s. [0x1680, 0x2000] @ noCase changeCaseLib s @ [0x200A, 0x202F]),
       sentenceCase = (\<lambda>s. [0x205F] @ sentenceCase changeCaseLib s @ js ''  '') \<rparr>"

text \<open>
  Steps that count the calls made, the release of the mutex as one hundred, and of which
  the \<open>k\<close>-th call raises an exception, a string (no call does for \<open>k = 0\<close>).
\<close>

definition faultySteps :: "nat \<Rightarrow> (string, nat) steps" where
  "faultySteps k =
     \<lparr> imageToBase64_step = (\<lambda>imagePath n.
         (if k = 1 then Inl ''fault 1'' else Inr (js ''data:image/png;base64,AQ==''), Suc n)),
       getNewFilename_step = (\<lambda>imagePath imageBase64 n.
         (if k = 2 then Inl ''fault 2'' else Inr (js ''red car''), Suc n)),
       convertCase_step = (\<lambda>name format n.
         (if k = 3 then Inl ''fault 3'' else Inr (js ''red_car''), Suc n)),
       newFilePath_step = (\<lambda>imagePath sanitizedName n.
         (if k = 4 then Inl ''fault 4'' else Inr (sanitizedName @ js ''.png''), Suc n)),
       acquire_step = (\<lambda>n. (if k = 5 then Inl ''fault 5'' else Inr (), Suc n)),
       release_step = (\<lambda>n. n + 100),
       stat_step = (\<lambda>filePath n. (if k = 6 then Inl ''fault 6'' else Inr False, Suc n)),
       rename_step = (\<lambda>src dst n. (if k = 7 then Inl ''fault 7'' else Inr (), Suc n)) \<rparr>"

section \<open>Properties of the name transformer\<close>

lemma substring_prefix: "substring 0 n s = take n s"
  by (simp add: substring_def Let_def min_def)

lemma length_substring_le: "length (substring 0 n s) \<le> n"
  by (simp add: substring_prefix)

lemma applyCase_simps:
  "applyCase cc name snake = snakeCase cc name"
  "applyCase cc name kebab = kebabCase cc name"
  "applyCase cc name pascal = pascalCase cc name"
  "applyCase cc name camel = camelCase cc name"
  "applyCase cc name capital = capitalCase cc name"
  "applyCase cc name lowercase = noCase cc name"
  "applyCase cc name sentence = sentenceCase cc name"
  by (simp_all add: applyCase_def)

lemma trim_split:
  "s = takeWhile isWhiteSpace s @ trim s @ rev (takeWhile isWhiteSpace (rev (dropWhile isWhiteSpace s)))"
proof -
  let ?d = "dropWhile isWhiteSpace s"
  have "rev (dropWhile isWhiteSpace (rev ?d)) @ rev (takeWhile isWhiteSpace (rev ?d)) = ?d"
    by (metis rev_append rev_rev_ident takeWhile_dropWhile_id)
  then have "?d = trim s @ rev (takeWhile isWhiteSpace (rev ?d))"
    by (simp add: trim_def trimStart_def trimEnd_def)
  moreover have "s = takeWhile isWhiteSpace s @ ?d"
    by simp
  ultimately show ?thesis
    by simp
qed

lemma trim_last: "trim s \<noteq> [] \<Longrightarrow> \<not> isWhiteSpace (last (trim s))"
  unfolding trim_def trimStart_def trimEnd_def
  using hd_dropWhile [of isWhiteSpace "rev (dropWhile isWhiteSpace s)"]
  by (simp add: last_rev)

lemma trim_hd: "trim s \<noteq> [] \<Longrightarrow> \<not> isWhiteSpace (hd (trim s))"
proof -
  assume n: "trim s \<noteq> []"
  let ?d = "dropWhile isWhiteSpace s"
  have "?d = trim s @ rev (takeWhile isWhiteSpace (rev ?d))"
    using trim_split [of s] by (metis append_same_eq takeWhile_dropWhile_id append_assoc same_append_eq)
  with n have "hd ?d = hd (trim s)" and "?d \<noteq> []"
    by (metis hd_append2, metis append_is_Nil_conv)
  then show ?thesis
    using hd_dropWhile [of isWhiteSpace s] by simp
qed

lemma isWhiteSpace_iff:
  "isWhiteSpace c \<longleftrightarrow>
     c \<in> {0x09, 0x0A, 0x0B, 0x0C, 0x0D, 0x20, 0xA0, 0x1680, 0x2028, 0x2029, 0x202F, 0x205F,
           0x3000, 0xFEFF} \<union> {0x2000 .. 0x200A}"
  by (auto simp: isWhiteSpace_def)

text \<open>
  Claim C6. For every input string, every format and whatever the casing functions of the
  library return, \<open>convertCase\<close> takes the conversion of the library that belongs to the
  format (\<open>snakeCase\<close> for snake, \<open>kebabCase\<close> for kebab, \<open>pascalCase\<close> for pascal,
  \<open>camelCase\<close> for camel, \<open>capitalCase\<close> for capital, \<open>noCase\<close> for lowercase and
  \<open>sentenceCase\<close> for sentence), removes the white space at both ends of the converted
  text, up to the first and the last code unit that is not white space, and keeps the
  first 200 code units of what is left. White space is the set of code units that
  \<open>String.prototype.trim\<close> removes. So the result is never longer than 200.
\<close>

theorem convertCase_order_and_bound:
  "(\<exists>l t r.
      (case format of
         snake \<Rightarrow> snakeCase cc name
       | kebab \<Rightarrow> kebabCase cc name
       | pascal \<Rightarrow> pascalCase cc name
       | camel \<Rightarrow> camelCase cc name
       | capital \<Rightarrow> capitalCase cc name
       | lowercase \<Rightarrow> noCase cc name
       | sentence \<Rightarrow> sentenceCase cc name) = l @ t @ r \<and>
      list_all isWhiteSpace l \<and> list_all isWhiteSpace r \<and>
      (t \<noteq> [] \<longrightarrow> \<not> isWhiteSpace (hd t) \<and> \<not> isWhiteSpace (last t)) \<and>
      convertCase cc name format = take 200 t) \<and>
   (\<forall>c. isWhiteSpace c \<longleftrightarrow>
      c \<in> {0x09, 0x0A, 0x0B, 0x0C, 0x0D, 0x20, 0xA0, 0x1680, 0x2028, 0x2029, 0x202F, 0x205F,
            0x3000, 0xFEFF} \<union> {0x2000 .. 0x200A}) \<and>
   length (convertCase cc name format) \<le> 200"
proof -
  let ?cased = "applyCase cc name format"
  let ?l = "takeWhile isWhiteSpace ?cased"
  let ?r = "rev (takeWhile isWhiteSpace (rev (dropWhile isWhiteSpace ?cased)))"
  have a: "(case format of
         snake \<Rightarrow> snakeCase cc name
       | kebab \<Rightarrow> kebabCase cc name
       | pascal \<Rightarrow> pascalCase cc name
       | camel \<Rightarrow> camelCase cc name
       | capital \<Rightarrow> capitalCase cc name
       | lowercase \<Rightarrow> noCase cc name
       | sentence \<Rightarrow> sentenceCase cc name) = ?cased"
    by (simp add: applyCase_def)
  have l: "list_all isWhiteSpace ?l"
    by (simp add: list_all_iff) (metis set_takeWhileD)
  have r: "list_all isWhiteSpace ?r"
    by (simp add: list_all_iff) (metis set_takeWhileD)
  have c: "convertCase cc name format = take 200 (trim ?cased)"
    by (simp add: convertCase_def substring_prefix)
  have "?cased = ?l @ trim ?cased @ ?r \<and> list_all isWhiteSpace ?l \<and> list_all isWhiteSpace ?r \<and>
        (trim ?cased \<noteq> [] \<longrightarrow> \<not> isWhiteSpace (hd (trim ?cased)) \<and> \<not> isWhiteSpace (last (trim ?cased))) \<and>
        convertCase cc name format = take 200 (trim ?cased)"
    using trim_split [of ?cased] l r c trim_hd [of ?cased] trim_last [of ?cased] by blast
  then have "\<exists>l t r. ?cased = l @ t @ r \<and> list_all isWhiteSpace l \<and> list_all isWhiteSpace r \<and>
        (t \<noteq> [] \<longrightarrow> \<not> isWhiteSpace (hd t) \<and> \<not> isWhiteSpace (last t)) \<and>
        convertCase cc name format = take 200 t"
    by blast
  with a c isWhiteSpace_iff show ?thesis
    by simp
qed

theorem convertCase_order_and_bound_witness:
  "snakeCase paddedLib (js ''Red Sports Car'') = js '' '' @ js ''red_sports_car'' @ [0x09, 0x0A] \<and>
   convertCase paddedLib (js ''Red Sports Car'') snake = js ''red_sports_car'' \<and>
   \<not> isWhiteSpace (hd (convertCase paddedLib (js ''Red Sports Car'') snake)) \<and>
   \<not> isWhiteSpace (last (convertCase paddedLib (js ''Red Sports Car'') snake)) \<and>
   length (snakeCase paddedLib (replicate 203 0x61)) = 206 \<and>
   length (convertCase paddedLib (replicate 203 0x61) snake) = 200"
proof -
  let ?name = "js ''Red Sports Car''"
  have v: "snakeCase paddedLib ?name = js '' '' @ js ''red_sports_car'' @ [0x09, 0x0A]"
          "convertCase paddedLib ?name snake = js ''red_sports_car''"
          "length (snakeCase paddedLib (replicate 203 0x61)) = 206"
          "length (convertCase paddedLib (replicate 203 0x61) snake) = 200"
    by code_simp+
  from convertCase_order_and_bound [where format = snake and cc = paddedLib and name = ?name]
  obtain l t r where
    t: "t \<noteq> [] \<longrightarrow> \<not> isWhiteSpace (hd t) \<and> \<not> isWhiteSpace (last t)"
       "convertCase paddedLib ?name snake = take 200 t"
    by blast
  have e: "take 200 t = js ''red_sports_car''"
    using t(2) v(2) by simp
  have "length (take 200 t) = 14"
    unfolding e by (simp add: js_def)
  then have "length t = 14"
    by (simp add: min_def split: if_splits)
  then have "take 200 t = t" and "t \<noteq> []"
    by auto
  with t have "\<not> isWhiteSpace (hd (convertCase paddedLib ?name snake))"
    and "\<not> isWhiteSpace (last (convertCase paddedLib ?name snake))"
    by simp_all
  with v show ?thesis
    by simp
qed

text \<open>
  Claim C7. On the candidate name "Red Sports Car" the name transformer gives
  "red_sports_car" for snake, "red-sports-car" for kebab, "RedSportsCar" for pascal and
  "Red Sports Car" for capital.
\<close>

theorem convertCase_red_sports_car:
  "convertCase changeCaseLib (js ''Red Sports Car'') snake = js ''red_sports_car'' \<and>
   convertCase changeCaseLib (js ''Red Sports Car'') kebab = js ''red-sports-car'' \<and>
   convertCase changeCaseLib (js ''Red Sports Car'') pascal = js ''RedSportsCar'' \<and>
   convertCase changeCaseLib (js ''Red Sports Car'') capital = js ''Red Sports Car''"
  by code_simp

section \<open>Properties of one pipeline\<close>


lemma isFileReadable_iff:
  "isFileReadable fs p \<longleftrightarrow> (\<exists>bytes. nodes fs (resolve fs p) = Some (File bytes True))"
  by (auto simp: isFileReadable_def doesFileExist_def fs_stat_def fs_access_def
           split: option.splits node.splits)

lemma imageToBase64_iff:
  "(\<exists>b. imageToBase64 fs p = Inr b) \<longleftrightarrow> (\<exists>bytes. nodes fs (resolve fs p) = Some (File bytes True))"
  by (auto simp: imageToBase64_def fs_readFile_def Let_def split: option.splits node.splits)

lemma rename_nodes_fresh:
  "refuses fs src dst = None \<Longrightarrow> nodes fs (resolve fs src) = Some n \<Longrightarrow>
   nodes fs (resolve fs dst) = None \<Longrightarrow>
   rename_nodes fs src dst = Inr ((nodes fs)(resolve fs src := None, resolve fs dst \<mapsto> n))"
  by (cases n) (auto simp: rename_nodes_def)

lemma rename_nodes_onto_dir:
  "refuses fs src dst = None \<Longrightarrow> nodes fs (resolve fs src) = Some (File bytes r) \<Longrightarrow>
   nodes fs (resolve fs dst) = Some Dir \<Longrightarrow> rename_nodes fs src dst = Inl EISDIR"
  by (auto simp: rename_nodes_def)

lemma rename_nodes_refused:
  "refuses fs src dst = Some x \<Longrightarrow> rename_nodes fs src dst = Inl x"
  by (simp add: rename_nodes_def)


lemma fs_rename_Inl:
  "rename_nodes fs src dst = Inl x \<Longrightarrow>
   fs_rename fs src dst = (Inl x, fs\<lparr>renames := renames fs @ [(src, dst)]\<rparr>)"
  by (simp add: fs_rename_def)

lemma getNewFilename_fails:
  "requestFails (remote b) \<Longrightarrow> \<exists>x. getNewFilename remote b = Inl x"
  by (auto simp: requestFails_def usableText_def getNewFilename_def
           split: fetch_result.splits option.splits sum.splits if_splits)

lemma getNewFilename_succeeds:
  "\<not> requestFails (remote b) \<Longrightarrow> \<exists>n. getNewFilename remote b = Inr n \<and> n \<noteq> []"
  by (auto simp: requestFails_def usableText_def getNewFilename_def
           split: fetch_result.splits option.splits sum.splits if_splits)

lemma getNewFilename_nonempty:
  "getNewFilename remote b = Inr n \<Longrightarrow> n \<noteq> []"
  by (auto simp: getNewFilename_def split: fetch_result.splits option.splits sum.splits if_splits)

lemma describe_throws:
  "getNewFilename (service e imagePath) b = Inl x \<Longrightarrow>
   describeAndTransform e format imagePath b = Throw x"
  by (simp add: describeAndTransform_def)

lemma processImage_describe_error:
  "imageToBase64 fs imagePath = Inr b \<Longrightarrow> getNewFilename (service e imagePath) b = Inl x \<Longrightarrow>
   processImage e format imagePath fs = (Error, fs)"
  by (simp add: processImage_def processImage_try_def describe_throws)

lemma checkThenRename_result:
  "fst (checkThenRename fs src dst) \<noteq> Inr Error"
  by (auto simp: checkThenRename_def split: prod.splits sum.splits)

lemma describeAndTransform_result:
  "describeAndTransform e format imagePath b \<noteq> Return Error"
  by (auto simp: describeAndTransform_def Let_def split: sum.splits)

lemma processImage_try_not_Error:
  "fst (processImage_try e format imagePath fs) \<noteq> Inr Error"
  using checkThenRename_result describeAndTransform_result
  by (auto simp: processImage_try_def split: sum.splits transformed.splits)

lemma service_envWith: "service (envWith r) p u = r"
  by (simp add: envWith_def)

text \<open>
  Claim C2, as stated: whenever the destination is not a regular file at the check, the
  rename is performed and the result is Success. It fails where the destination is a
  directory: \<open>stats.isFile()\<close> is false, the rename is called and rejects.
\<close>

theorem check_then_rename_counterexample:
  "\<not> doesFileExist (files [(''a.png'', File [1] True), (''cat.png'', Dir)]) (js ''cat.png'') \<and>
   fst (checkThenRename (files [(''a.png'', File [1] True), (''cat.png'', Dir)])
          (js ''a.png'') (js ''cat.png'')) = Inl (FsError EISDIR) \<and>
   fst (processImage (envWith (answer ''cat'')) snake (js ''a.png'')
          (files [(''a.png'', File [1] True), (''cat.png'', Dir)])) = Error"
  by code_simp

text \<open>
  Claim C2, amended. If the destination is a regular file at the check, the result is
  Skipped and the state is the one before: no rename call, no file changed. Otherwise
  the rename is called once; if it succeeds the result is Success with the new path and
  the files are as the rename left them; if it fails the step throws that error and no
  file is changed.
\<close>

theorem check_then_rename:
  "(doesFileExist fs dst \<longrightarrow> checkThenRename fs src dst = (Inr Skipped, fs)) \<and>
   (\<not> doesFileExist fs dst \<and> rename_nodes fs src dst = Inr m \<longrightarrow>
      checkThenRename fs src dst =
        (Inr (Success dst), fs\<lparr>nodes := m, renames := renames fs @ [(src, dst)]\<rparr>)) \<and>
   (\<not> doesFileExist fs dst \<and> rename_nodes fs src dst = Inl x \<longrightarrow>
      checkThenRename fs src dst =
        (Inl (FsError x), fs\<lparr>renames := renames fs @ [(src, dst)]\<rparr>))"
  by (simp add: checkThenRename_def fs_rename_def)

theorem check_then_rename_witness:
  "doesFileExist (files [(''a.png'', File [1] True), (''cat.png'', File [2] True)]) (js ''cat.png'') \<and>
   checkThenRename (files [(''a.png'', File [1] True), (''cat.png'', File [2] True)])
       (js ''a.png'') (js ''cat.png'')
     = (Inr Skipped, files [(''a.png'', File [1] True), (''cat.png'', File [2] True)]) \<and>
   \<not> doesFileExist (files [(''a.png'', File [1] True)]) (js ''cat.png'') \<and>
   checkThenRename (files [(''a.png'', File [1] True)]) (js ''a.png'') (js ''cat.png'')
     = (Inr (Success (js ''cat.png'')),
        (files [(''a.png'', File [1] True)])
          \<lparr>nodes := (nodes (files [(''a.png'', File [1] True)]))
                      (js ''a.png'' := None, js ''cat.png'' \<mapsto> File [1] True),
           renames := [(js ''a.png'', js ''cat.png'')]\<rparr>) \<and>
   \<not> doesFileExist (files [(''a.png'', File [1] True), (''cat.png'', Dir)]) (js ''cat.png'') \<and>
   checkThenRename (files [(''a.png'', File [1] True), (''cat.png'', Dir)])
       (js ''a.png'') (js ''cat.png'')
     = (Inl (FsError EISDIR),
        (files [(''a.png'', File [1] True), (''cat.png'', Dir)])
          \<lparr>renames := [(js ''a.png'', js ''cat.png'')]\<rparr>)"
proof -
  let ?a = "js ''a.png''" and ?c = "js ''cat.png''"
  let ?taken = "files [(''a.png'', File [1] True), (''cat.png'', File [2] True)]"
  let ?free = "files [(''a.png'', File [1] True)]"
  let ?dir = "files [(''a.png'', File [1] True), (''cat.png'', Dir)]"
  have e1: "doesFileExist ?taken ?c" by code_simp
  have e2: "\<not> doesFileExist ?free ?c" by code_simp
  have e3: "\<not> doesFileExist ?dir ?c" by code_simp
  have n2: "refuses ?free ?a ?c = None" "nodes ?free (resolve ?free ?a) = Some (File [1] True)"
    "nodes ?free (resolve ?free ?c) = None"
    by code_simp+
  have n3: "refuses ?dir ?a ?c = None" "nodes ?dir (resolve ?dir ?a) = Some (File [1] True)"
    "nodes ?dir (resolve ?dir ?c) = Some Dir"
    by code_simp+
  have l: "renames ?free = []" "renames ?dir = []"
    by (simp_all add: files_def)
  have k: "resolve ?free ?a = ?a" "resolve ?free ?c = ?c"
    by code_simp+
  note r2 = rename_nodes_fresh [OF n2]
  note r3 = rename_nodes_onto_dir [OF n3]
  show ?thesis
    using e1 e2 e3 r2 r3 l k
      check_then_rename [of ?taken ?c ?a]
      check_then_rename [of ?free ?c ?a _ EISDIR]
      check_then_rename [of ?dir ?c ?a _ EISDIR]
    by simp
qed

text \<open>
  Claim C4, as stated: a description that is empty after trimming gives the outcome
  Skipped. On a response whose content is two spaces the outcome is Error.
\<close>

theorem empty_description_counterexample:
  "content_of (JObject [(js ''choices'',
       JArray [JObject [(js ''message'', JObject [(js ''content'', JString (js ''  ''))])]])])
     = Inr (Some []) \<and>
   fst (processImage (envWith (answer ''  '')) snake (js ''a.png'')
          (files [(''a.png'', File [1] True)])) = Error"
  by code_simp

text \<open>
  Claim C4, amended. When the content returned by the service is empty after trimming,
  \<open>getNewFilename\<close> throws and the outcome of the file is Error, with no change of the
  state. \<open>getNewFilename\<close> never returns an empty name, so the test of an empty name in
  \<open>processImage\<close> is never reached with one.
\<close>

theorem empty_description_is_error:
  assumes "imageToBase64 fs imagePath = Inr b"
    and "service e imagePath b = Response True (Some data)"
    and "content_of data = Inr (Some [])"
  shows "processImage e format imagePath fs = (Error, fs) \<and>
         getNewFilename remote url \<noteq> Inr []"
proof -
  have "getNewFilename (service e imagePath) b = Inl NoContentError"
    using assms(2,3) by (simp add: getNewFilename_def)
  with assms(1) have "processImage e format imagePath fs = (Error, fs)"
    by (rule processImage_describe_error)
  moreover have "getNewFilename remote url \<noteq> Inr []"
    using getNewFilename_nonempty by blast
  ultimately show ?thesis by simp
qed

theorem empty_description_is_error_witness:
  "imageToBase64 (files [(''a.png'', File [1] True)]) (js ''a.png'')
     = Inr (js ''data:image/png;base64,AQ=='') \<and>
   content_of (JObject [(js ''choices'',
       JArray [JObject [(js ''message'', JObject [(js ''content'', JString (js ''  ''))])]])])
     = Inr (Some []) \<and>
   processImage (envWith (answer ''  '')) snake (js ''a.png'') (files [(''a.png'', File [1] True)])
     = (Error, files [(''a.png'', File [1] True)])"
proof -
  let ?fs = "files [(''a.png'', File [1] True)]"
  let ?data = "JObject [(js ''choices'',
       JArray [JObject [(js ''message'', JObject [(js ''content'', JString (js ''  ''))])]])]"
  have r: "imageToBase64 ?fs (js ''a.png'') = Inr (js ''data:image/png;base64,AQ=='')"
    by code_simp
  have s: "service (envWith (answer ''  '')) (js ''a.png'') (js ''data:image/png;base64,AQ=='')
             = Response True (Some ?data)"
    by (simp add: service_envWith answer_def)
  have c: "content_of ?data = Inr (Some [])"
    by code_simp
  show ?thesis
    using r c empty_description_is_error [OF r s c, of snake] by simp
qed

text \<open>
  Claim C5. When the request for the description times out, gets a response that is not
  a 2xx response, or gets a body without usable text, the outcome of the file is Error
  and the state is the one before: no rename call was made and no file has changed.
\<close>

theorem describe_failure_is_error:
  assumes "imageToBase64 fs imagePath = Inr b"
    and "requestFails (service e imagePath b)"
  shows "processImage e format imagePath fs = (Error, fs)"
proof -
  from assms(2) obtain x where "getNewFilename (service e imagePath) b = Inl x"
    using getNewFilename_fails by blast
  with assms(1) show ?thesis by (rule processImage_describe_error)
qed

theorem describe_failure_is_error_witness:
  "imageToBase64 (files [(''a.png'', File [1] True)]) (js ''a.png'')
     = Inr (js ''data:image/png;base64,AQ=='') \<and>
   requestFails Rejected \<and>
   requestFails (Response False (Some (JString (js ''Too Many Requests'')))) \<and>
   requestFails (Response True (Some (JObject [(js ''choices'', JArray [])]))) \<and>
   processImage (envWith Rejected) snake (js ''a.png'') (files [(''a.png'', File [1] True)])
     = (Error, files [(''a.png'', File [1] True)]) \<and>
   processImage (envWith (Response False (Some (JString (js ''Too Many Requests''))))) snake
       (js ''a.png'') (files [(''a.png'', File [1] True)])
     = (Error, files [(''a.png'', File [1] True)]) \<and>
   processImage (envWith (Response True (Some (JObject [(js ''choices'', JArray [])])))) snake
       (js ''a.png'') (files [(''a.png'', File [1] True)])
     = (Error, files [(''a.png'', File [1] True)])"
proof -
  let ?fs = "files [(''a.png'', File [1] True)]"
  have r: "imageToBase64 ?fs (js ''a.png'') = Inr (js ''data:image/png;base64,AQ=='')"
    by code_simp
  have f1: "requestFails Rejected"
    by code_simp
  have f2: "requestFails (Response False (Some (JString (js ''Too Many Requests''))))"
    by code_simp
  have f3: "requestFails (Response True (Some (JObject [(js ''choices'', JArray [])])))"
    by code_simp
  show ?thesis
    using r f1 f2 f3
      describe_failure_is_error [of ?fs "js ''a.png''" _ "envWith Rejected" snake, OF r]
      describe_failure_is_error [of ?fs "js ''a.png''" _
        "envWith (Response False (Some (JString (js ''Too Many Requests''))))" snake, OF r]
      describe_failure_is_error [of ?fs "js ''a.png''" _
        "envWith (Response True (Some (JObject [(js ''choices'', JArray [])])))" snake, OF r]
    by (simp add: service_envWith)
qed

text \<open>
  Claim C8. When the new path that \<open>processImage\<close> computes is the image path itself,
  the outcome is Skipped and the state is the one before: no rename call was made and no
  file has changed.
\<close>

theorem same_path_is_skipped:
  assumes "imageToBase64 fs imagePath = Inr b"
    and "getNewFilename (service e imagePath) b = Inr aiName"
    and "path_join (path_dirname imagePath)
           (convertCase (lib e) aiName format @ path_extname imagePath) = imagePath"
  shows "processImage e format imagePath fs = (Skipped, fs)"
  using assms
  by (simp add: processImage_def processImage_try_def describeAndTransform_def Let_def)

theorem same_path_is_skipped_witness:
  "imageToBase64 (files [(''cat.png'', File [1] True)]) (js ''cat.png'')
     = Inr (js ''data:image/png;base64,AQ=='') \<and>
   getNewFilename (service (envWith (answer ''cat'')) (js ''cat.png''))
       (js ''data:image/png;base64,AQ=='') = Inr (js ''cat'') \<and>
   path_join (path_dirname (js ''cat.png''))
       (convertCase (lib (envWith (answer ''cat''))) (js ''cat'') snake @ path_extname (js ''cat.png''))
     = js ''cat.png'' \<and>
   processImage (envWith (answer ''cat'')) snake (js ''cat.png'') (files [(''cat.png'', File [1] True)])
     = (Skipped, files [(''cat.png'', File [1] True)])"
proof -
  let ?fs = "files [(''cat.png'', File [1] True)]"
  have r: "imageToBase64 ?fs (js ''cat.png'') = Inr (js ''data:image/png;base64,AQ=='')"
    by code_simp
  have g: "getNewFilename (service (envWith (answer ''cat'')) (js ''cat.png''))
             (js ''data:image/png;base64,AQ=='') = Inr (js ''cat'')"
    by code_simp
  have p: "path_join (path_dirname (js ''cat.png''))
             (convertCase (lib (envWith (answer ''cat''))) (js ''cat'') snake
                @ path_extname (js ''cat.png'')) = js ''cat.png''"
    by code_simp
  show ?thesis
    using r g p same_path_is_skipped [OF r g p] by simp
qed

lemma processImageOn_returns:
  "\<exists>r \<sigma>'. processImageOn s format imagePath \<sigma> = (Inr r, \<sigma>')"
  by (simp add: processImageOn_def split: prod.splits sum.splits)

lemma tryBlock_not_Error:
  "tryBlock s format imagePath \<sigma> \<noteq> (Inr Error, \<sigma>')"
  by (auto simp: tryBlock_def andThen_def returns_def runExclusive_def doesFileExistOn_def
           split: prod.splits sum.splits if_splits)

lemma processImageOn_Error_iff:
  "processImageOn s format imagePath \<sigma> = (Inr Error, \<sigma>') \<longleftrightarrow>
   (\<exists>x. tryBlock s format imagePath \<sigma> = (Inl x, \<sigma>'))"
  using tryBlock_not_Error [of s format imagePath \<sigma> \<sigma>']
  by (auto simp: processImageOn_def split: prod.splits sum.splits)

lemma processImageOn_model:
  "processImageOn (modelSteps e) format imagePath fs =
     (Inr (fst (processImage e format imagePath fs)), snd (processImage e format imagePath fs))"
  by (auto simp: processImageOn_def tryBlock_def andThen_def returns_def runExclusive_def
        doesFileExistOn_def doesFileExist_def
        modelSteps_def processImage_def processImage_try_def describeAndTransform_def
        checkThenRename_def Let_def
      split: prod.splits sum.splits if_splits transformed.splits)

lemma runExclusive_stat:
  "runExclusive (s\<lparr>stat_step := f\<rparr>) = runExclusive s"
  by (intro ext) (simp add: runExclusive_def split: prod.splits sum.splits)

lemma doesFileExistOn_stat:
  "doesFileExistOn
     (s\<lparr>stat_step := (\<lambda>filePath \<sigma>. case stat_step s filePath \<sigma> of
                                      (Inl x, \<sigma>') \<Rightarrow> (Inr False, \<sigma>')
                                    | (Inr isFile, \<sigma>') \<Rightarrow> (Inr isFile, \<sigma>'))\<rparr>) =
   doesFileExistOn s"
  by (intro ext) (simp add: doesFileExistOn_def split: prod.splits sum.splits)

lemma stat_caught:
  "processImageOn s format imagePath \<sigma> =
   processImageOn
     (s\<lparr>stat_step := (\<lambda>filePath \<sigma>. case stat_step s filePath \<sigma> of
                                      (Inl x, \<sigma>') \<Rightarrow> (Inr False, \<sigma>')
                                    | (Inr isFile, \<sigma>') \<Rightarrow> (Inr isFile, \<sigma>'))\<rparr>)
     format imagePath \<sigma>"
  by (simp add: processImageOn_def tryBlock_def runExclusive_stat doesFileExistOn_stat
           cong: if_cong)

lemma fault1:
  "imageToBase64_step s imagePath \<sigma> = (Inl x, \<sigma>1) \<Longrightarrow>
   processImageOn s format imagePath \<sigma> = (Inr Error, \<sigma>1)"
  by (simp add: processImageOn_def tryBlock_def andThen_def)

lemma fault2:
  "imageToBase64_step s imagePath \<sigma> = (Inr imageBase64, \<sigma>1) \<Longrightarrow>
   getNewFilename_step s imagePath imageBase64 \<sigma>1 = (Inl x, \<sigma>2) \<Longrightarrow>
   processImageOn s format imagePath \<sigma> = (Inr Error, \<sigma>2)"
  by (simp add: processImageOn_def tryBlock_def andThen_def)

lemma fault3:
  "imageToBase64_step s imagePath \<sigma> = (Inr imageBase64, \<sigma>1) \<Longrightarrow>
   getNewFilename_step s imagePath imageBase64 \<sigma>1 = (Inr aiName, \<sigma>2) \<Longrightarrow> aiName \<noteq> [] \<Longrightarrow>
   convertCase_step s aiName format \<sigma>2 = (Inl x, \<sigma>3) \<Longrightarrow>
   processImageOn s format imagePath \<sigma> = (Inr Error, \<sigma>3)"
  by (simp add: processImageOn_def tryBlock_def andThen_def)

lemma fault4:
  "imageToBase64_step s imagePath \<sigma> = (Inr imageBase64, \<sigma>1) \<Longrightarrow>
   getNewFilename_step s imagePath imageBase64 \<sigma>1 = (Inr aiName, \<sigma>2) \<Longrightarrow> aiName \<noteq> [] \<Longrightarrow>
   convertCase_step s aiName format \<sigma>2 = (Inr sanitizedName, \<sigma>3) \<Longrightarrow> sanitizedName \<noteq> [] \<Longrightarrow>
   newFilePath_step s imagePath sanitizedName \<sigma>3 = (Inl x, \<sigma>4) \<Longrightarrow>
   processImageOn s format imagePath \<sigma> = (Inr Error, \<sigma>4)"
  by (simp add: processImageOn_def tryBlock_def andThen_def)

lemma fault5:
  "imageToBase64_step s imagePath \<sigma> = (Inr imageBase64, \<sigma>1) \<Longrightarrow>
   getNewFilename_step s imagePath imageBase64 \<sigma>1 = (Inr aiName, \<sigma>2) \<Longrightarrow> aiName \<noteq> [] \<Longrightarrow>
   convertCase_step s aiName format \<sigma>2 = (Inr sanitizedName, \<sigma>3) \<Longrightarrow> sanitizedName \<noteq> [] \<Longrightarrow>
   newFilePath_step s imagePath sanitizedName \<sigma>3 = (Inr newFilePath, \<sigma>4) \<Longrightarrow>
   imagePath \<noteq> newFilePath \<Longrightarrow>
   acquire_step s \<sigma>4 = (Inl x, \<sigma>5) \<Longrightarrow>
   processImageOn s format imagePath \<sigma> = (Inr Error, \<sigma>5)"
  by (simp add: processImageOn_def tryBlock_def andThen_def runExclusive_def)

lemma fault7:
  "imageToBase64_step s imagePath \<sigma> = (Inr imageBase64, \<sigma>1) \<Longrightarrow>
   getNewFilename_step s imagePath imageBase64 \<sigma>1 = (Inr aiName, \<sigma>2) \<Longrightarrow> aiName \<noteq> [] \<Longrightarrow>
   convertCase_step s aiName format \<sigma>2 = (Inr sanitizedName, \<sigma>3) \<Longrightarrow> sanitizedName \<noteq> [] \<Longrightarrow>
   newFilePath_step s imagePath sanitizedName \<sigma>3 = (Inr newFilePath, \<sigma>4) \<Longrightarrow>
   imagePath \<noteq> newFilePath \<Longrightarrow>
   acquire_step s \<sigma>4 = (Inr (), \<sigma>5) \<Longrightarrow>
   doesFileExistOn s newFilePath \<sigma>5 = (Inr False, \<sigma>6) \<Longrightarrow>
   rename_step s imagePath newFilePath \<sigma>6 = (Inl x, \<sigma>7) \<Longrightarrow>
   processImageOn s format imagePath \<sigma> = (Inr Error, release_step s \<sigma>7)"
  by (simp add: processImageOn_def tryBlock_def andThen_def runExclusive_def)

text \<open>
  Claim C10. Whatever the calls of \<open>processImage\<close> do, from every state, for every path
  and format: \<open>processImage\<close> returns a result and no exception leaves it; the result is
  Error exactly when an exception left the \<open>try\<close> block. An exception of \<open>imageToBase64\<close>,
  of \<open>getNewFilename\<close>, of \<open>convertCase\<close>, of the computation of the new path, of the
  wait for the mutex or of \<open>fs.rename\<close> gives the result Error, in the state that the
  call left, after the release of the mutex where it was held. An exception of \<open>fs.stat\<close>
  does not reach the \<open>try\<close> block: \<open>doesFileExist\<close> catches it and answers that no file
  is there. On the calls of the model this is the function \<open>processImage\<close> of the
  properties above.
\<close>

theorem processImage_contains_exceptions:
  "(\<exists>r \<sigma>'. processImageOn s format imagePath \<sigma> = (Inr r, \<sigma>')) \<and>
   (\<forall>\<sigma>'. processImageOn s format imagePath \<sigma> = (Inr Error, \<sigma>') \<longleftrightarrow>
         (\<exists>x. tryBlock s format imagePath \<sigma> = (Inl x, \<sigma>'))) \<and>
   (\<forall>x \<sigma>1.
      imageToBase64_step s imagePath \<sigma> = (Inl x, \<sigma>1)
      \<longrightarrow> processImageOn s format imagePath \<sigma> = (Inr Error, \<sigma>1)) \<and>
   (\<forall>imageBase64 \<sigma>1 x \<sigma>2.
      imageToBase64_step s imagePath \<sigma> = (Inr imageBase64, \<sigma>1) \<and>
      getNewFilename_step s imagePath imageBase64 \<sigma>1 = (Inl x, \<sigma>2)
      \<longrightarrow> processImageOn s format imagePath \<sigma> = (Inr Error, \<sigma>2)) \<and>
   (\<forall>imageBase64 \<sigma>1 aiName \<sigma>2 x \<sigma>3.
      imageToBase64_step s imagePath \<sigma> = (Inr imageBase64, \<sigma>1) \<and>
      getNewFilename_step s imagePath imageBase64 \<sigma>1 = (Inr aiName, \<sigma>2) \<and> aiName \<noteq> [] \<and>
      convertCase_step s aiName format \<sigma>2 = (Inl x, \<sigma>3)
      \<longrightarrow> processImageOn s format imagePath \<sigma> = (Inr Error, \<sigma>3)) \<and>
   (\<forall>imageBase64 \<sigma>1 aiName \<sigma>2 sanitizedName \<sigma>3 x \<sigma>4.
      imageToBase64_step s imagePath \<sigma> = (Inr imageBase64, \<sigma>1) \<and>
      getNewFilename_step s imagePath imageBase64 \<sigma>1 = (Inr aiName, \<sigma>2) \<and> aiName \<noteq> [] \<and>
      convertCase_step s aiName format \<sigma>2 = (Inr sanitizedName, \<sigma>3) \<and> sanitizedName \<noteq> [] \<and>
      newFilePath_step s imagePath sanitizedName \<sigma>3 = (Inl x, \<sigma>4)
      \<longrightarrow> processImageOn s format imagePath \<sigma> = (Inr Error, \<sigma>4)) \<and>
   (\<forall>imageBase64 \<sigma>1 aiName \<sigma>2 sanitizedName \<sigma>3 newFilePath \<sigma>4 x \<sigma>5.
      imageToBase64_step s imagePath \<sigma> = (Inr imageBase64, \<sigma>1) \<and>
      getNewFilename_step s imagePath imageBase64 \<sigma>1 = (Inr aiName, \<sigma>2) \<and> aiName \<noteq> [] \<and>
      convertCase_step s aiName format \<sigma>2 = (Inr sanitizedName, \<sigma>3) \<and> sanitizedName \<noteq> [] \<and>
      newFilePath_step s imagePath sanitizedName \<sigma>3 = (Inr newFilePath, \<sigma>4) \<and>
      imagePath \<noteq> newFilePath \<and>
      acquire_step s \<sigma>4 = (Inl x, \<sigma>5)
      \<longrightarrow> processImageOn s format imagePath \<sigma> = (Inr Error, \<sigma>5)) \<and>
   (\<forall>imageBase64 \<sigma>1 aiName \<sigma>2 sanitizedName \<sigma>3 newFilePath \<sigma>4 \<sigma>5 \<sigma>6 x \<sigma>7.
      imageToBase64_step s imagePath \<sigma> = (Inr imageBase64, \<sigma>1) \<and>
      getNewFilename_step s imagePath imageBase64 \<sigma>1 = (Inr aiName, \<sigma>2) \<and> aiName \<noteq> [] \<and>
      convertCase_step s aiName format \<sigma>2 = (Inr sanitizedName, \<sigma>3) \<and> sanitizedName \<noteq> [] \<and>
      newFilePath_step s imagePath sanitizedName \<sigma>3 = (Inr newFilePath, \<sigma>4) \<and>
      imagePath \<noteq> newFilePath \<and>
      acquire_step s \<sigma>4 = (Inr (), \<sigma>5) \<and>
      doesFileExistOn s newFilePath \<sigma>5 = (Inr False, \<sigma>6) \<and>
      rename_step s imagePath newFilePath \<sigma>6 = (Inl x, \<sigma>7)
      \<longrightarrow> processImageOn s format imagePath \<sigma> = (Inr Error, release_step s \<sigma>7)) \<and>
   processImageOn s format imagePath \<sigma> =
     processImageOn
       (s\<lparr>stat_step := (\<lambda>filePath \<sigma>. case stat_step s filePath \<sigma> of
                                        (Inl x, \<sigma>') \<Rightarrow> (Inr False, \<sigma>')
                                      | (Inr isFile, \<sigma>') \<Rightarrow> (Inr isFile, \<sigma>'))\<rparr>)
       format imagePath \<sigma> \<and>
   processImageOn (modelSteps e) format imagePath fs =
     (Inr (fst (processImage e format imagePath fs)), snd (processImage e format imagePath fs))"
proof (intro conjI allI impI)
  show "\<exists>r \<sigma>'. processImageOn s format imagePath \<sigma> = (Inr r, \<sigma>')"
    by (rule processImageOn_returns)
  show "processImageOn s format imagePath \<sigma> = (Inr Error, \<sigma>') \<longleftrightarrow>
        (\<exists>x. tryBlock s format imagePath \<sigma> = (Inl x, \<sigma>'))" for \<sigma>'
    by (rule processImageOn_Error_iff)
  show "processImageOn s format imagePath \<sigma> =
     processImageOn
       (s\<lparr>stat_step := (\<lambda>filePath \<sigma>. case stat_step s filePath \<sigma> of
                                        (Inl x, \<sigma>') \<Rightarrow> (Inr False, \<sigma>')
                                      | (Inr isFile, \<sigma>') \<Rightarrow> (Inr isFile, \<sigma>'))\<rparr>)
       format imagePath \<sigma>"
    by (rule stat_caught)
  show "processImageOn (modelSteps e) format imagePath fs =
     (Inr (fst (processImage e format imagePath fs)), snd (processImage e format imagePath fs))"
    by (rule processImageOn_model)
qed (blast intro: fault1 fault2 fault3 fault4 fault5 fault7)+

theorem processImage_contains_exceptions_witness:
  "processImageOn (faultySteps 0) snake (js ''a.png'') 0 = (Inr (Success (js ''red_car.png'')), 107) \<and>
   imageToBase64_step (faultySteps 1) (js ''a.png'') 0 = (Inl ''fault 1'', 1) \<and>
   processImageOn (faultySteps 1) snake (js ''a.png'') 0 = (Inr Error, 1) \<and>
   getNewFilename_step (faultySteps 2) (js ''a.png'') (js ''data:image/png;base64,AQ=='') 1
     = (Inl ''fault 2'', 2) \<and>
   processImageOn (faultySteps 2) snake (js ''a.png'') 0 = (Inr Error, 2) \<and>
   convertCase_step (faultySteps 3) (js ''red car'') snake 2 = (Inl ''fault 3'', 3) \<and>
   processImageOn (faultySteps 3) snake (js ''a.png'') 0 = (Inr Error, 3) \<and>
   newFilePath_step (faultySteps 4) (js ''a.png'') (js ''red_car'') 3 = (Inl ''fault 4'', 4) \<and>
   processImageOn (faultySteps 4) snake (js ''a.png'') 0 = (Inr Error, 4) \<and>
   acquire_step (faultySteps 5) 4 = (Inl ''fault 5'', 5) \<and>
   processImageOn (faultySteps 5) snake (js ''a.png'') 0 = (Inr Error, 5) \<and>
   stat_step (faultySteps 6) (js ''red_car.png'') 5 = (Inl ''fault 6'', 6) \<and>
   processImageOn (faultySteps 6) snake (js ''a.png'') 0 = (Inr (Success (js ''red_car.png'')), 107) \<and>
   rename_step (faultySteps 7) (js ''a.png'') (js ''red_car.png'') 6 = (Inl ''fault 7'', 7) \<and>
   processImageOn (faultySteps 7) snake (js ''a.png'') 0 = (Inr Error, 107)"
proof -
  let ?p = "js ''a.png''"
  let ?u = "js ''data:image/png;base64,AQ==''"
  let ?q = "js ''red_car.png''"
  have ok: "processImageOn (faultySteps 0) snake ?p 0 = (Inr (Success ?q), 107)"
           "processImageOn (faultySteps 6) snake ?p 0 = (Inr (Success ?q), 107)"
    by code_simp+
  have s1: "imageToBase64_step (faultySteps 1) ?p 0 = (Inl ''fault 1'', 1)"
    by code_simp
  have s2: "imageToBase64_step (faultySteps 2) ?p 0 = (Inr ?u, 1)"
           "getNewFilename_step (faultySteps 2) ?p ?u 1 = (Inl ''fault 2'', 2)"
    by code_simp+
  have s3: "imageToBase64_step (faultySteps 3) ?p 0 = (Inr ?u, 1)"
           "getNewFilename_step (faultySteps 3) ?p ?u 1 = (Inr (js ''red car''), 2)"
           "js ''red car'' \<noteq> []"
           "convertCase_step (faultySteps 3) (js ''red car'') snake 2 = (Inl ''fault 3'', 3)"
    by code_simp+
  have s4: "imageToBase64_step (faultySteps 4) ?p 0 = (Inr ?u, 1)"
           "getNewFilename_step (faultySteps 4) ?p ?u 1 = (Inr (js ''red car''), 2)"
           "js ''red car'' \<noteq> []"
           "convertCase_step (faultySteps 4) (js ''red car'') snake 2 = (Inr (js ''red_car''), 3)"
           "js ''red_car'' \<noteq> []"
           "newFilePath_step (faultySteps 4) ?p (js ''red_car'') 3 = (Inl ''fault 4'', 4)"
    by code_simp+
  have s5: "imageToBase64_step (faultySteps 5) ?p 0 = (Inr ?u, 1)"
           "getNewFilename_step (faultySteps 5) ?p ?u 1 = (Inr (js ''red car''), 2)"
           "js ''red car'' \<noteq> []"
           "convertCase_step (faultySteps 5) (js ''red car'') snake 2 = (Inr (js ''red_car''), 3)"
           "js ''red_car'' \<noteq> []"
           "newFilePath_step (faultySteps 5) ?p (js ''red_car'') 3 = (Inr ?q, 4)"
           "?p \<noteq> ?q"
           "acquire_step (faultySteps 5) 4 = (Inl ''fault 5'', 5)"
    by code_simp+
  have s6: "stat_step (faultySteps 6) ?q 5 = (Inl ''fault 6'', 6)"
    by code_simp
  have s7: "imageToBase64_step (faultySteps 7) ?p 0 = (Inr ?u, 1)"
           "getNewFilename_step (faultySteps 7) ?p ?u 1 = (Inr (js ''red car''), 2)"
           "js ''red car'' \<noteq> []"
           "convertCase_step (faultySteps 7) (js ''red car'') snake 2 = (Inr (js ''red_car''), 3)"
           "js ''red_car'' \<noteq> []"
           "newFilePath_step (faultySteps 7) ?p (js ''red_car'') 3 = (Inr ?q, 4)"
           "?p \<noteq> ?q"
           "acquire_step (faultySteps 7) 4 = (Inr (), 5)"
           "doesFileExistOn (faultySteps 7) ?q 5 = (Inr False, 6)"
           "rename_step (faultySteps 7) ?p ?q 6 = (Inl ''fault 7'', 7)"
           "release_step (faultySteps 7) 7 = 107"
    by code_simp+
  have r1: "processImageOn (faultySteps 1) snake ?p 0 = (Inr Error, 1)"
    by (rule processImage_contains_exceptions [where s = "faultySteps 1" and format = snake
        and imagePath = ?p and \<sigma> = 0,
        THEN conjunct2, THEN conjunct2, THEN conjunct1, rule_format])
       ((intro conjI)?, (rule s1)+)
  have r2: "processImageOn (faultySteps 2) snake ?p 0 = (Inr Error, 2)"
    by (rule processImage_contains_exceptions [where s = "faultySteps 2" and format = snake
        and imagePath = ?p and \<sigma> = 0,
        THEN conjunct2, THEN conjunct2, THEN conjunct2, THEN conjunct1, rule_format])
       ((intro conjI)?, (rule s2)+)
  have r3: "processImageOn (faultySteps 3) snake ?p 0 = (Inr Error, 3)"
    by (rule processImage_contains_exceptions [where s = "faultySteps 3" and format = snake
        and imagePath = ?p and \<sigma> = 0,
        THEN conjunct2, THEN conjunct2, THEN conjunct2, THEN conjunct2, THEN conjunct1, rule_format])
       ((intro conjI)?, (rule s3)+)
  have r4: "processImageOn (faultySteps 4) snake ?p 0 = (Inr Error, 4)"
    by (rule processImage_contains_exceptions [where s = "faultySteps 4" and format = snake
        and imagePath = ?p and \<sigma> = 0,
        THEN conjunct2, THEN conjunct2, THEN conjunct2, THEN conjunct2, THEN conjunct2, THEN conjunct1, rule_format])
       ((intro conjI)?, (rule s4)+)
  have r5: "processImageOn (faultySteps 5) snake ?p 0 = (Inr Error, 5)"
    by (rule processImage_contains_exceptions [where s = "faultySteps 5" and format = snake
        and imagePath = ?p and \<sigma> = 0,
        THEN conjunct2, THEN conjunct2, THEN conjunct2, THEN conjunct2, THEN conjunct2, THEN conjunct2, THEN conjunct1, rule_format])
       ((intro conjI)?, (rule s5)+)
  have "processImageOn (faultySteps 7) snake ?p 0 = (Inr Error, release_step (faultySteps 7) 7)"
    by (rule processImage_contains_exceptions [where s = "faultySteps 7" and format = snake
        and imagePath = ?p and \<sigma> = 0,
        THEN conjunct2, THEN conjunct2, THEN conjunct2, THEN conjunct2, THEN conjunct2, THEN conjunct2, THEN conjunct2, THEN conjunct1, rule_format])
       ((intro conjI)?, (rule s7(1-10))+)
  then have r7: "processImageOn (faultySteps 7) snake ?p 0 = (Inr Error, 107)"
    by (simp only: s7(11))
  show ?thesis
    using ok s1 s2(2) s3(4) s4(6) s5(8) s6 s7(10) r1 r2 r3 r4 r5 r7 by simp
qed

section \<open>Properties of a run\<close>

lemma length_filter_update:
  "i < length xs \<Longrightarrow>
   length (filter P (xs[i := y])) + (if P (xs ! i) then 1 else 0)
     = length (filter P xs) + (if P y then 1 else 0)"
proof (induction xs arbitrary: i)
  case Nil
  then show ?case by simp
next
  case (Cons x xs)
  then show ?case by (cases i) auto
qed

lemma advance_Done: "isDone st \<Longrightarrow> advance e format slot p st fs l = (st, fs, l)"
  by (cases st) simp_all

lemma fst_tasks_step: "map fst (tasks (step e format limit c i)) = map fst (tasks c)"
proof (cases "i < length (tasks c)")
  case False
  then show ?thesis by (simp add: step_def)
next
  case True
  obtain p st where t: "tasks c ! i = (p, st)" by (cases "tasks c ! i")
  obtain st' fs' l' where a: "advance e format (activeCount c < limit) p st (fsys c) (locked c) = (st', fs', l')"
    by (metis prod_cases3)
  have "map fst ((tasks c)[i := (p, st')]) = map fst (tasks c)"
    using True t by (simp add: map_update) (metis fst_conv list_update_id map_update)
  then show ?thesis
    using True t a by (auto simp: step_def finish_def Let_def split: pstate.splits)
qed

lemma countStatus_update:
  assumes "i < length ts" and "ts ! i = (p, st)" and "\<not> isDone st"
  shows "countStatus s (ts[i := (p, Done r)]) = countStatus s ts + (if status r = s then 1 else 0)"
    and "\<not> isDone st' \<Longrightarrow> countStatus s (ts[i := (p, st')]) = countStatus s ts"
    and "length (filter (\<lambda>t. isDone (snd t)) (ts[i := (p, Done r)]))
           = length (filter (\<lambda>t. isDone (snd t)) ts) + 1"
    and "\<not> isDone st' \<Longrightarrow> length (filter (\<lambda>t. isDone (snd t)) (ts[i := (p, st')]))
           = length (filter (\<lambda>t. isDone (snd t)) ts)"
proof -
  let ?P = "\<lambda>t. case snd t of Done r \<Rightarrow> status r = s | _ \<Rightarrow> False"
  have n: "\<not> ?P (ts ! i)" using assms(2,3) by (cases st) simp_all
  show "countStatus s (ts[i := (p, Done r)]) = countStatus s ts + (if status r = s then 1 else 0)"
    using length_filter_update [OF assms(1), of ?P "(p, Done r)"] n
    by (simp add: countStatus_def)
  show "countStatus s (ts[i := (p, st')]) = countStatus s ts" if "\<not> isDone st'"
  proof -
    have "\<not> ?P (p, st')" using that by (cases st') simp_all
    then show ?thesis
      using length_filter_update [OF assms(1), of ?P "(p, st')"] n
      by (simp add: countStatus_def)
  qed
  have d: "\<not> isDone (snd (ts ! i))" using assms(2,3) by simp
  show "length (filter (\<lambda>t. isDone (snd t)) (ts[i := (p, Done r)]))
           = length (filter (\<lambda>t. isDone (snd t)) ts) + 1"
    using length_filter_update [OF assms(1), of "\<lambda>t. isDone (snd t)" "(p, Done r)"] d by simp
  show "length (filter (\<lambda>t. isDone (snd t)) (ts[i := (p, st')]))
           = length (filter (\<lambda>t. isDone (snd t)) ts)" if "\<not> isDone st'"
    using length_filter_update [OF assms(1), of "\<lambda>t. isDone (snd t)" "(p, st')"] d that by simp
qed

lemma counted_step:
  assumes "counted c"
  shows "counted (step e format limit c i)"
proof (cases "i < length (tasks c)")
  case False
  then show ?thesis using assms by (simp add: step_def)
next
  case True
  obtain p st where t: "tasks c ! i = (p, st)" by (cases "tasks c ! i")
  obtain st' fs' l' where a: "advance e format (activeCount c < limit) p st (fsys c) (locked c) = (st', fs', l')"
    by (metis prod_cases3)
  show ?thesis
  proof (cases "isDone st")
    case True
    with a have "st' = st" by (simp add: advance_Done)
    moreover have "(tasks c)[i := (p, st)] = tasks c"
      using t by (metis list_update_id)
    ultimately show ?thesis
      using \<open>i < length (tasks c)\<close> t a True assms
      by (cases st) (auto simp: step_def counted_def)
  next
    case False
    show ?thesis
    proof (cases "isDone st'")
      case True
      then obtain r where r: "st' = Done r" by (cases st') simp_all
      show ?thesis
        using \<open>i < length (tasks c)\<close> t a r False assms
          countStatus_update(1,3) [OF \<open>i < length (tasks c)\<close> t False]
        by (simp add: step_def counted_def finish_def)
    next
      case nd: False
      show ?thesis
        using \<open>i < length (tasks c)\<close> t a nd False assms
          countStatus_update(2,4) [OF \<open>i < length (tasks c)\<close> t False nd]
        by (cases st') (simp_all add: step_def counted_def)
    qed
  qed
qed

lemma counted_start: "counted (start fs ps)"
  by (induction ps) (simp_all add: counted_def start_def countStatus_def)

lemma counted_run: "counted c \<Longrightarrow> counted (run e format limit schedule c)"
  unfolding run_def by (induction schedule arbitrary: c) (simp_all add: counted_step)

lemma fst_tasks_run: "map fst (tasks (run e format limit schedule c)) = map fst (tasks c)"
  unfolding run_def by (induction schedule arbitrary: c) (simp_all add: fst_tasks_step)

lemma countStatus_sum:
  "countStatus success ts + countStatus skipped ts + countStatus error ts
     = length (filter (\<lambda>t. isDone (snd t)) ts)"
proof (induction ts)
  case Nil
  then show ?case by (simp add: countStatus_def)
next
  case (Cons t ts)
  show ?case
  proof (cases "snd t")
    case (Done r)
    with Cons show ?thesis by (cases r) (simp_all add: countStatus_def)
  qed (use Cons in \<open>simp_all add: countStatus_def\<close>)
qed

lemma allDone_filter: "allDone c \<Longrightarrow> filter (\<lambda>t. isDone (snd t)) (tasks c) = tasks c"
  by (simp add: allDone_def list_all_iff)

lemma set_filterLoop:
  "set (filterLoop fs acc ps)
     = set acc \<union> {p \<in> set ps. isFileReadable fs p \<and> toLowerCase (path_extname p) \<in> set ALLOWED_EXTENSIONS}"
  by (induction ps arbitrary: acc) (auto simp: set_add_def Let_def)

lemma distinct_filterLoop:
  "distinct acc \<Longrightarrow> distinct (filterLoop fs acc ps)"
  by (induction ps arbitrary: acc) (auto simp: set_add_def Let_def)

lemma main_config:
  assumes "main e hasApiKey imagePaths userSelections schedule fs = Completed c
           \<or> main e hasApiKey imagePaths userSelections schedule fs = Running c"
  shows "\<exists>format limit. userSelections = Some (format, limit) \<and> 1 \<le> limit \<and>
           c = run e format limit schedule (start fs (filterValidImagePaths fs imagePaths))"
  using assms
  by (auto simp: main_def Let_def split: if_splits option.splits prod.splits)

lemma main_Completed:
  "main e hasApiKey imagePaths userSelections schedule fs = Completed c \<Longrightarrow> allDone c"
  by (auto simp: main_def Let_def split: if_splits option.splits prod.splits)

lemma tasks_start: "map fst (tasks (start fs ps)) = ps"
  by (simp add: start_def comp_def)

text \<open>
  Claim C3. When \<open>main\<close> has completed a run, the counters of success, skipped and
  error add up to the number of valid paths. There is one task for each valid path, in
  their order, and no path occurs twice; every task has finished with one result, and each
  counter is the number of tasks whose result has that status.
\<close>

theorem summary_counts_every_path:
  assumes "main e hasApiKey imagePaths userSelections schedule fs = Completed c"
  shows "results c success + results c skipped + results c error
           = length (filterValidImagePaths fs imagePaths) \<and>
         done_count c = length (filterValidImagePaths fs imagePaths) \<and>
         length (messages c) = length (filterValidImagePaths fs imagePaths) \<and>
         map fst (tasks c) = filterValidImagePaths fs imagePaths \<and>
         distinct (filterValidImagePaths fs imagePaths) \<and>
         list_all (\<lambda>t. isDone (snd t)) (tasks c) \<and>
         results c success = countStatus success (tasks c) \<and>
         results c skipped = countStatus skipped (tasks c) \<and>
         results c error = countStatus error (tasks c)"
proof -
  let ?valid = "filterValidImagePaths fs imagePaths"
  from assms obtain format limit
    where c: "c = run e format limit schedule (start fs ?valid)"
    using main_config by blast
  have d: "allDone c" using assms by (rule main_Completed)
  have k: "counted c" unfolding c by (rule counted_run) (rule counted_start)
  have t: "map fst (tasks c) = ?valid"
    unfolding c by (simp add: fst_tasks_run tasks_start)
  then have n: "length (tasks c) = length ?valid"
    by (metis length_map)
  have f: "length (filter (\<lambda>t. isDone (snd t)) (tasks c)) = length ?valid"
    using d n by (simp add: allDone_filter)
  have "results c success + results c skipped + results c error = length ?valid"
    using k countStatus_sum [of "tasks c"] f by (simp add: counted_def)
  moreover have "done_count c = length ?valid" "length (messages c) = length ?valid"
    using k f by (simp_all add: counted_def)
  moreover have "distinct ?valid"
    by (simp add: filterValidImagePaths_def distinct_filterLoop)
  moreover have "list_all (\<lambda>t. isDone (snd t)) (tasks c)"
    using d by (simp add: allDone_def)
  ultimately show ?thesis using t k by (simp add: counted_def)
qed

theorem summary_counts_every_path_witness:
  "main (envWith (answer ''cat'')) True exampleArgs (Some (snake, 2)) exampleSchedule exampleFiles
     = Completed (run (envWith (answer ''cat'')) snake 2 exampleSchedule
                    (start exampleFiles [js ''a.png'', js ''B.JPG''])) \<and>
   filterValidImagePaths exampleFiles exampleArgs = [js ''a.png'', js ''B.JPG''] \<and>
   results (run (envWith (answer ''cat'')) snake 2 exampleSchedule
              (start exampleFiles [js ''a.png'', js ''B.JPG''])) success
   + results (run (envWith (answer ''cat'')) snake 2 exampleSchedule
                (start exampleFiles [js ''a.png'', js ''B.JPG''])) skipped
   + results (run (envWith (answer ''cat'')) snake 2 exampleSchedule
                (start exampleFiles [js ''a.png'', js ''B.JPG''])) error = 2"
proof -
  let ?c = "run (envWith (answer ''cat'')) snake 2 exampleSchedule
              (start exampleFiles [js ''a.png'', js ''B.JPG''])"
  have v: "filterValidImagePaths exampleFiles exampleArgs = [js ''a.png'', js ''B.JPG'']"
    by code_simp
  have d: "allDone ?c"
    by code_simp
  have a: "exampleArgs \<noteq> []"
    by (simp add: exampleArgs_def)
  have m: "main (envWith (answer ''cat'')) True exampleArgs (Some (snake, 2)) exampleSchedule
             exampleFiles = Completed ?c"
    using v d a by (simp add: main_def)
  show ?thesis
    using m v summary_counts_every_path [OF m] by simp
qed

text \<open>
  Claim C9. \<open>filterValidImagePaths\<close> keeps exactly the arguments that are readable
  regular files with an extension that, in lower case, is one of .png, .jpg, .jpeg and
  .webp. A path that is not such a file is not among the valid paths; \<open>main\<close> makes the
  tasks from the valid paths only, so that path has no task, hence no result, and the
  counters count the results of the tasks only.
\<close>

theorem invalid_paths_are_excluded:
  assumes "\<not> ((\<exists>bytes. nodes fs (resolve fs p) = Some (File bytes True)) \<and>
              toLowerCase (path_extname p) \<in> set ALLOWED_EXTENSIONS)"
  shows "p \<notin> set (filterValidImagePaths fs imagePaths) \<and>
         set (filterValidImagePaths fs imagePaths)
           = {q \<in> set imagePaths. (\<exists>bytes. nodes fs (resolve fs q) = Some (File bytes True)) \<and>
                toLowerCase (path_extname q) \<in> set ALLOWED_EXTENSIONS} \<and>
         (main e hasApiKey imagePaths userSelections schedule fs = Running c \<or>
          main e hasApiKey imagePaths userSelections schedule fs = Completed c \<longrightarrow>
            p \<notin> fst ` set (tasks c) \<and>
            results c success = countStatus success (tasks c) \<and>
            results c skipped = countStatus skipped (tasks c) \<and>
            results c error = countStatus error (tasks c) \<and>
            length (messages c) = length (filter (\<lambda>t. isDone (snd t)) (tasks c)))"
proof -
  let ?valid = "filterValidImagePaths fs imagePaths"
  have s: "set ?valid
             = {q \<in> set imagePaths. (\<exists>bytes. nodes fs (resolve fs q) = Some (File bytes True)) \<and>
                  toLowerCase (path_extname q) \<in> set ALLOWED_EXTENSIONS}"
    by (simp add: filterValidImagePaths_def set_filterLoop isFileReadable_iff)
  with assms have n: "p \<notin> set ?valid"
    by blast
  have "p \<notin> fst ` set (tasks c) \<and> counted c"
    if "main e hasApiKey imagePaths userSelections schedule fs = Running c \<or>
        main e hasApiKey imagePaths userSelections schedule fs = Completed c"
  proof -
    from that obtain format limit
      where c: "c = run e format limit schedule (start fs ?valid)"
      using main_config [of e hasApiKey imagePaths userSelections schedule fs c] by blast
    have "map fst (tasks c) = ?valid"
      unfolding c by (simp add: fst_tasks_run tasks_start)
    then have "fst ` set (tasks c) = set ?valid"
      by (metis set_map)
    moreover have "counted c"
      unfolding c by (rule counted_run) (rule counted_start)
    ultimately show ?thesis using n by simp
  qed
  then show ?thesis
    using n s by (auto simp: counted_def)
qed

theorem invalid_paths_are_excluded_witness:
  "path_extname (js ''x.gif'') = js ''.gif'' \<and>
   js ''.gif'' \<notin> set ALLOWED_EXTENSIONS \<and>
   nodes exampleFiles (resolve exampleFiles (js ''gone.png'')) = None \<and>
   nodes exampleFiles (resolve exampleFiles (js ''d.png'')) = Some Dir \<and>
   js ''x.gif'' \<notin> set (filterValidImagePaths exampleFiles exampleArgs) \<and>
   js ''gone.png'' \<notin> set (filterValidImagePaths exampleFiles exampleArgs) \<and>
   js ''d.png'' \<notin> set (filterValidImagePaths exampleFiles exampleArgs) \<and>
   filterValidImagePaths exampleFiles exampleArgs = [js ''a.png'', js ''B.JPG'']"
proof -
  have x: "path_extname (js ''x.gif'') = js ''.gif''" "js ''.gif'' \<notin> set ALLOWED_EXTENSIONS"
          "toLowerCase (js ''.gif'') = js ''.gif''"
    by code_simp+
  have g: "nodes exampleFiles (resolve exampleFiles (js ''gone.png'')) = None"
    by code_simp
  have d: "nodes exampleFiles (resolve exampleFiles (js ''d.png'')) = Some Dir"
    by code_simp
  have v: "filterValidImagePaths exampleFiles exampleArgs = [js ''a.png'', js ''B.JPG'']"
    by code_simp
  have hx: "\<not> ((\<exists>bytes. nodes exampleFiles (resolve exampleFiles (js ''x.gif'')) = Some (File bytes True)) \<and>
              toLowerCase (path_extname (js ''x.gif'')) \<in> set ALLOWED_EXTENSIONS)"
    using x by simp
  have hg: "\<not> ((\<exists>bytes. nodes exampleFiles (resolve exampleFiles (js ''gone.png'')) = Some (File bytes True)) \<and>
              toLowerCase (path_extname (js ''gone.png'')) \<in> set ALLOWED_EXTENSIONS)"
    using g by simp
  have hd: "\<not> ((\<exists>bytes. nodes exampleFiles (resolve exampleFiles (js ''d.png'')) = Some (File bytes True)) \<and>
              toLowerCase (path_extname (js ''d.png'')) \<in> set ALLOWED_EXTENSIONS)"
    using d by simp
  show ?thesis
    using x g d v
      invalid_paths_are_excluded [OF hx, of exampleArgs]
      invalid_paths_are_excluded [OF hg, of exampleArgs]
      invalid_paths_are_excluded [OF hd, of exampleArgs]
    by simp
qed

section \<open>A task that runs alone\<close>

lemma step_fields:
  assumes "i < length (tasks c)" and "tasks c ! i = (p, st)"
    and "advance e format (activeCount c < limit) p st (fsys c) (locked c) = (st', F', l')"
  shows "tasks (step e format limit c i) = (tasks c)[i := (p, st')] \<and>
         fsys (step e format limit c i) = F' \<and> locked (step e format limit c i) = l'"
  using assms by (cases st') (auto simp: step_def finish_def Let_def)


lemma advance_not_Pending:
  "st \<noteq> Pending \<Longrightarrow> advance e format slot p st F l = advance e format True p st F l"
  by (cases st) simp_all

lemma advance_leaves_Pending:
  "advance e format True p st F l = (st', F', l') \<Longrightarrow> st' \<noteq> Pending"
  by (cases st) (auto split: sum.splits transformed.splits if_splits prod.splits)

text \<open>
  A task that moves six times from the queue, with the mutex free, has finished with the
  result and the file system of \<open>processImage\<close>.
\<close>

lemma alone_six:
  "(alone e format p ^^ 6) (Pending, F, False)
     = (Done (fst (processImage e format p F)), snd (processImage e format p F), False)"
  by (auto simp: numeral_eq_Suc alone_def processImage_def processImage_try_def checkThenRename_def
           split: sum.splits transformed.splits prod.splits)

lemma run_replicate:
  assumes "i < length (tasks c)" and "tasks c ! i = (p, st)"
    and "st = Pending \<longrightarrow> activeCount c < limit"
    and "(alone e format p ^^ n) (st, fsys c, locked c) = (st', F', l')"
  shows "tasks (run e format limit (replicate n i) c) = (tasks c)[i := (p, st')] \<and>
         fsys (run e format limit (replicate n i) c) = F' \<and>
         locked (run e format limit (replicate n i) c) = l'"
  using assms
proof (induction n arbitrary: c st)
  case 0
  then show ?case by (simp add: run_def) (metis list_update_id)
next
  case (Suc n)
  obtain s1 F1 l1 where a: "advance e format True p st (fsys c) (locked c) = (s1, F1, l1)"
    by (metis prod_cases3)
  have a': "advance e format (activeCount c < limit) p st (fsys c) (locked c) = (s1, F1, l1)"
    using a Suc.prems(3) advance_not_Pending [of st e format "activeCount c < limit" p]
    by (cases "st = Pending") auto
  let ?c1 = "step e format limit c i"
  note f = step_fields [OF Suc.prems(1,2) a']
  have n1: "s1 \<noteq> Pending" using a by (rule advance_leaves_Pending)
  have i1: "i < length (tasks ?c1)" using f Suc.prems(1) by simp
  have t1: "tasks ?c1 ! i = (p, s1)" using f Suc.prems(1) by simp
  have al: "alone e format p (st, fsys c, locked c) = (s1, F1, l1)"
    using a by (simp add: alone_def)
  have it: "(alone e format p ^^ n) (s1, fsys ?c1, locked ?c1) = (st', F', l')"
    using Suc.prems(4) al f by (simp add: funpow_Suc_right del: funpow.simps)
  have r: "run e format limit (replicate (Suc n) i) c = run e format limit (replicate n i) ?c1"
    by (simp add: run_def)
  from Suc.IH [OF i1 t1 _ it] n1 f show ?case
    unfolding r by simp
qed

lemma activeCount_zero:
  "\<forall>t \<in> set (tasks c). \<not> isActive (snd t) \<Longrightarrow> activeCount c = 0"
  by (simp add: activeCount_def)

lemma task_alone:
  assumes "i < length (tasks c)" and "tasks c ! i = (p, Pending)" and "\<not> locked c"
    and "\<forall>t \<in> set (tasks c). \<not> isActive (snd t)" and "1 \<le> limit"
  shows "tasks (run e format limit (replicate 6 i) c)
           = (tasks c)[i := (p, Done (fst (processImage e format p (fsys c))))] \<and>
         fsys (run e format limit (replicate 6 i) c) = snd (processImage e format p (fsys c)) \<and>
         \<not> locked (run e format limit (replicate 6 i) c)"
proof -
  have "activeCount c < limit"
    using assms(4,5) by (simp add: activeCount_zero)
  moreover have "(alone e format p ^^ 6) (Pending, fsys c, locked c)
     = (Done (fst (processImage e format p (fsys c))), snd (processImage e format p (fsys c)), False)"
    using assms(3) alone_six [of e format p "fsys c"] by simp
  ultimately show ?thesis
    using run_replicate [OF assms(1,2), where limit = limit and e = e and format = format and n = 6]
    by blast
qed

text \<open>
  Every run can complete: the schedule that moves each task six times, one task after the
  other, finishes all of them, whatever the limit of at least one.
\<close>

lemma sequential_run:
  assumes "\<not> locked c" and "1 \<le> limit" and "k \<le> length (tasks c)"
    and "\<forall>j < k. isDone (snd (tasks c ! j))"
    and "\<forall>j. k \<le> j \<and> j < length (tasks c) \<longrightarrow> snd (tasks c ! j) = Pending"
  shows "allDone (run e format limit (concat (map (replicate 6) [k..<length (tasks c)])) c)"
  using assms
proof (induction "length (tasks c) - k" arbitrary: c k)
  case 0
  then have "k = length (tasks c)" by simp
  with 0 show ?case
    by (auto simp: run_def allDone_def list_all_length)
next
  case (Suc m)
  let ?n = "length (tasks c)"
  have k: "k < ?n" using Suc.hyps(2) by simp
  obtain p where t: "tasks c ! k = (p, Pending)"
    using Suc.prems(5) k by (cases "tasks c ! k") auto
  have na: "\<forall>t \<in> set (tasks c). \<not> isActive (snd t)"
  proof
    fix x assume "x \<in> set (tasks c)"
    then obtain j where j: "j < ?n" "x = tasks c ! j" by (metis in_set_conv_nth)
    show "\<not> isActive (snd x)"
    proof (cases "j < k")
      case True
      with Suc.prems(4) j show ?thesis by (cases "snd (tasks c ! j)") auto
    next
      case False
      with Suc.prems(5) j show ?thesis by simp
    qed
  qed
  let ?c1 = "run e format limit (replicate 6 k) c"
  note a = task_alone [OF k t Suc.prems(1) na Suc.prems(2), where e = e and format = format]
  have len: "length (tasks ?c1) = ?n" using a by simp
  have split: "[k..<?n] = k # [Suc k..<?n]" using k by (simp add: upt_conv_Cons)
  have r: "run e format limit (concat (map (replicate 6) [k..<?n])) c
             = run e format limit (concat (map (replicate 6) [Suc k..<length (tasks ?c1)])) ?c1"
    unfolding len split by (simp add: run_def)
  have "allDone (run e format limit (concat (map (replicate 6) [Suc k..<length (tasks ?c1)])) ?c1)"
  proof (rule Suc.hyps(1))
    show "m = length (tasks ?c1) - Suc k" using Suc.hyps(2) len by simp
    show "\<not> locked ?c1" using a by simp
    show "1 \<le> limit" by (rule Suc.prems(2))
    show "Suc k \<le> length (tasks ?c1)" using k len by simp
    show "\<forall>j < Suc k. isDone (snd (tasks ?c1 ! j))"
      using a k Suc.prems(4) by (auto simp: nth_list_update less_Suc_eq)
    show "\<forall>j. Suc k \<le> j \<and> j < length (tasks ?c1) \<longrightarrow> snd (tasks ?c1 ! j) = Pending"
      using a k Suc.prems(5) len by (auto simp: nth_list_update)
  qed
  then show ?case unfolding r .
qed

lemma run_can_complete:
  assumes "1 \<le> limit"
  shows "allDone (run e format limit (concat (map (replicate 6) [0..<length paths]))
                    (start fs paths))"
proof -
  have "allDone (run e format limit
           (concat (map (replicate 6) [0..<length (tasks (start fs paths))])) (start fs paths))"
    by (rule sequential_run) (use assms in \<open>simp_all add: start_def\<close>)
  then show ?thesis by (simp add: start_def)
qed

lemma main_can_complete:
  assumes "hasApiKey" and "filterValidImagePaths fs imagePaths \<noteq> []" and "1 \<le> limit"
  shows "\<exists>schedule c. main e hasApiKey imagePaths (Some (format, limit)) schedule fs = Completed c"
proof -
  have "imagePaths \<noteq> []"
    using assms(2) by (auto simp: filterValidImagePaths_def)
  then show ?thesis
    using assms run_can_complete [OF assms(3), of e format "filterValidImagePaths fs imagePaths" fs]
    by (auto simp: main_def Let_def)
qed

section \<open>Two pipelines with one destination\<close>















lemma advance_Done_same:
  "advance e format slot p (Done r) F l = (st', F', l') \<Longrightarrow> st' = Done r \<and> F' = F \<and> l' = l"
  by simp
















end
